theory Spec2Isabelle
  imports Complex_Main "HOL-Library.Multiset"
begin

section \<open>Python string primitives used by \<open>rag.py\<close>\<close>

text \<open>
  Texts are lists of characters; a \<^typ>\<open>char\<close> stands for a code point below 256.
  \<open>is_space\<close> is Python's Unicode whitespace test on that range (what \<open>\s\<close> of
  \<open>re\<close> and \<open>str.strip()\<close> use): 9..13, 28..32, 133 and 160.
\<close>

definition is_space :: "char \<Rightarrow> bool" where
  "is_space c =
     (let n = (of_char c :: nat)
      in (9 \<le> n \<and> n \<le> 13) \<or> (28 \<le> n \<and> n \<le> 32) \<or> n = 133 \<or> n = 160)"

text \<open>\<open>re.sub(r'\s+', ' ', text)\<close>: every maximal run of whitespace becomes one space.
  The flag says whether the previous character belonged to a run already replaced.\<close>

fun sub_ws :: "bool \<Rightarrow> string \<Rightarrow> string" where
  "sub_ws in_run [] = []"
| "sub_ws in_run (c # cs) =
     (if is_space c then (if in_run then sub_ws True cs else CHR '' '' # sub_ws True cs)
      else c # sub_ws False cs)"

definition collapse_ws :: "string \<Rightarrow> string" where
  "collapse_ws text = sub_ws False text"

text \<open>\<open>str.strip()\<close>.\<close>

definition strip :: "string \<Rightarrow> string" where
  "strip s = rev (dropWhile is_space (rev (dropWhile is_space s)))"

text \<open>Python's adjustment of a slice bound against a sequence of length \<open>n\<close>: a negative
  bound counts from the end, and the result is clamped into \<open>0..n\<close>.\<close>

definition py_index :: "nat \<Rightarrow> int \<Rightarrow> nat" where
  "py_index n i = (if i < 0 then nat (max 0 (i + int n)) else min (nat i) n)"

text \<open>\<open>xs[s:e]\<close> and \<open>xs[:k]\<close>.\<close>

definition py_slice :: "'a list \<Rightarrow> int \<Rightarrow> int \<Rightarrow> 'a list" where
  "py_slice xs s e =
     (let a = py_index (length xs) s; b = py_index (length xs) e
      in take (b - a) (drop a xs))"

definition py_prefix :: "'a list \<Rightarrow> int \<Rightarrow> 'a list" where
  "py_prefix xs k = take (py_index (length xs) k) xs"

text \<open>\<open>text.rfind(c, s, e)\<close> for a one-character needle: the highest index in the
  adjusted range holding \<open>c\<close>, or \<open>-1\<close>.\<close>

definition rfind :: "string \<Rightarrow> char \<Rightarrow> int \<Rightarrow> int \<Rightarrow> int" where
  "rfind text c s e =
     (let a = py_index (length text) s; b = py_index (length text) e;
          hits = filter (\<lambda>i. text ! i = c) [a..<b]
      in if hits = [] then - 1 else int (last hits))"

text \<open>\<open>sep.join(parts)\<close>.\<close>

fun py_join :: "string \<Rightarrow> string list \<Rightarrow> string" where
  "py_join sep [] = []"
| "py_join sep [x] = x"
| "py_join sep (x # y # ys) = x @ sep @ py_join sep (y # ys)"

section \<open>\<open>PDFProcessor\<close>\<close>

text \<open>The chunk dictionaries built by \<open>chunk_text\<close>
  (keys \<open>text, page_number, chunk_index, start_char, end_char\<close>).\<close>

record chunk =
  c_text :: string
  c_page_number :: int
  c_chunk_index :: int
  c_start_char :: int
  c_end_char :: int

record pdf_processor =
  chunk_size :: int
  chunk_overlap :: int

text \<open>\<open>PDFProcessor()\<close>: the constructor defaults, the only configuration the repository
  uses.\<close>

definition default_processor :: pdf_processor where
  "default_processor = \<lparr>chunk_size = 1500, chunk_overlap = 300\<rparr>"

text \<open>The end offset one iteration of the loop of \<open>chunk_text\<close> settles on
  (lines 143 to 153): the naive end, pulled back to a sentence end when the naive end
  lies before the end of the text and \<open>sentence_end > start\<close>.\<close>

definition window_end :: "pdf_processor \<Rightarrow> string \<Rightarrow> int \<Rightarrow> int" where
  "window_end p text start =
     (let end = start + chunk_size p in
      if end < int (length text) then
        (let sentence_end =
               max (max (rfind text CHR ''.'' start end) (rfind text CHR ''!'' start end))
                   (rfind text CHR ''?'' start end)
         in if sentence_end > start then sentence_end + 1 else end)
      else end)"

text \<open>The \<open>while start < len(text)\<close> loop. It need not terminate, so the result is an
  option: \<open>None\<close> stands for a loop that never returns.\<close>

partial_function (option) chunk_loop ::
  "pdf_processor \<Rightarrow> string \<Rightarrow> int \<Rightarrow> int \<Rightarrow> int \<Rightarrow> chunk list \<Rightarrow> chunk list option" where
  "chunk_loop p text pg start idx chunks =
     (if start < int (length text) then
        (let end = window_end p text start;
             ct = strip (py_slice text start end)
         in if ct \<noteq> [] then
              chunk_loop p text pg (end - chunk_overlap p) (idx + 1)
                (chunks @ [\<lparr>c_text = ct, c_page_number = pg, c_chunk_index = idx,
                            c_start_char = start, c_end_char = end\<rparr>])
            else chunk_loop p text pg (end - chunk_overlap p) idx chunks)
      else Some chunks)"

declare chunk_loop.simps [code]

definition chunk_text :: "pdf_processor \<Rightarrow> string \<Rightarrow> int \<Rightarrow> chunk list option" where
  "chunk_text p text pg = chunk_loop p (strip (collapse_ws text)) pg 0 0 []"



section \<open>The outside world of one call\<close>

type_synonym bytes = "char list"
type_synonym json = "(string \<times> string) list"
type_synonym vector = "real list"

datatype db_step = Connect | SelectByHash | InsertDocument | InsertChunks | Commit | SelectChunks

text \<open>
  What the libraries and the database server contribute to one call:
  \<^item> \<open>encode\<close>: \<open>SentenceTransformer.encode\<close> on one text, \<open>None\<close> when it raises.
    Vectors are lists of reals: rounding, overflow and the special values of
    \<open>float32\<close> are outside this model;
  \<^item> \<open>sha256\<close>: \<open>hashlib.sha256(text.encode('utf-8')).hexdigest()\<close>;
  \<^item> \<open>pdf_reader\<close>: the texts of the pages PyPDF2 reads, \<open>None\<close> when it raises;
  \<^item> \<open>clean_text\<close>: \<open>_clean_text\<close> (NFKD normalisation and two regular expressions
    over Unicode classes), taken as given;
  \<^item> \<open>now\<close>: \<open>CURRENT_TIMESTAMP\<close>;
  \<^item> \<open>db_fault\<close>: the database steps at which the server or the connection fails.
\<close>

record env =
  encode :: "string \<Rightarrow> vector option"
  sha256 :: "string \<Rightarrow> string"
  pdf_reader :: "bytes \<Rightarrow> string list option"
  clean_text :: "string \<Rightarrow> string"
  now :: nat
  db_fault :: "db_step \<Rightarrow> bool"

text \<open>\<open>extract_text_from_pdf\<close>: the pages with text, cleaned, numbered from 1; the empty
  list when reading raises.\<close>

definition extract_text_from_pdf :: "env \<Rightarrow> bytes \<Rightarrow> (string \<times> int) list" where
  "extract_text_from_pdf env pdf_bytes =
     (case pdf_reader env pdf_bytes of
        None \<Rightarrow> []
      | Some pages \<Rightarrow>
          map (\<lambda>(page_num, text). (clean_text env text, int page_num + 1))
            (filter (\<lambda>(page_num, text). strip text \<noteq> []) (enumerate 0 pages)))"

text \<open>The loop of \<open>process_pdf_bytes\<close>: \<open>chunk_text\<close> on every page, results appended.\<close>

fun chunk_pages :: "pdf_processor \<Rightarrow> (string \<times> int) list \<Rightarrow> chunk list option" where
  "chunk_pages p [] = Some []"
| "chunk_pages p ((text, page_num) # rest) =
     (case chunk_text p text page_num of
        None \<Rightarrow> None
      | Some chunks \<Rightarrow>
          (case chunk_pages p rest of
             None \<Rightarrow> None
           | Some later \<Rightarrow> Some (chunks @ later)))"

definition process_pdf_bytes :: "env \<Rightarrow> pdf_processor \<Rightarrow> bytes \<Rightarrow> chunk list option" where
  "process_pdf_bytes env p pdf_bytes =
     (let pages_text = extract_text_from_pdf env pdf_bytes
      in if pages_text = [] then Some [] else chunk_pages p pages_text)"

section \<open>\<open>EmbeddingGenerator\<close>\<close>

definition embedding_dim :: nat where
  "embedding_dim = 384"

definition zeros :: "nat \<Rightarrow> vector" where
  "zeros n = replicate n 0"

definition generate_embedding :: "env \<Rightarrow> string \<Rightarrow> vector" where
  "generate_embedding env text =
     (case encode env text of Some v \<Rightarrow> v | None \<Rightarrow> zeros embedding_dim)"

text \<open>The slices \<open>texts[i:i + batch_size]\<close> for \<open>i\<close> in \<open>range(0, len(texts), batch_size)\<close>.\<close>

function batches :: "nat \<Rightarrow> 'a list \<Rightarrow> 'a list list" where
  "batches n xs = (if n = 0 \<or> xs = [] then [] else take n xs # batches n (drop n xs))"
  by pat_completeness auto
termination
  by (relation "measure (\<lambda>(n, xs). length xs)") auto

declare batches.simps [simp del]

text \<open>\<open>model.encode(batch)\<close>: one vector per text, raising when any text fails.\<close>

definition encode_batch :: "env \<Rightarrow> string list \<Rightarrow> vector list option" where
  "encode_batch env batch = those (map (encode env) batch)"

text \<open>\<open>generate_embeddings_batch\<close> with its default \<open>batch_size = 32\<close>: an exception in any
  batch is caught by the one handler around the loop, which answers with a zero vector
  for every text.\<close>

definition generate_embeddings_batch :: "env \<Rightarrow> string list \<Rightarrow> vector list" where
  "generate_embeddings_batch env texts =
     (case those (map (encode_batch env) (batches 32 texts)) of
        Some embeddings \<Rightarrow> concat embeddings
      | None \<Rightarrow> map (\<lambda>_. zeros embedding_dim) texts)"

section \<open>The database of \<open>_initialize_database\<close>\<close>

record policy_document =
  pd_id :: int
  pd_document_name :: string
  pd_document_hash :: string
  pd_upload_date :: nat
  pd_total_chunks :: int
  pd_metadata :: json

text \<open>The embedding column holds \<open>embedding.tobytes()\<close> and is read back with
  \<open>np.frombuffer\<close>; the row keeps the vector itself.\<close>

record policy_chunk =
  pc_id :: int
  pc_document_id :: int
  pc_chunk_index :: int
  pc_chunk_text :: string
  pc_page_number :: int
  pc_chunk_metadata :: "int \<times> int"
  pc_embedding :: vector

text \<open>The two tables and the sequences behind their \<open>SERIAL\<close> keys. A sequence is not
  transactional: a rollback does not give its values back.\<close>

record database =
  policy_documents :: "policy_document list"
  policy_chunks :: "policy_chunk list"
  documents_id_seq :: int
  chunks_id_seq :: int

datatype error =
    ConnectionError
  | ExtractionFailed
  | NoInput
  | OperationalError db_step
  | NotNullViolation
  | StringDataRightTruncation
  | UniqueViolation

text \<open>What a call did, in order: the expensive computations and the database statements.\<close>

datatype event =
    Chunked
  | Hashed
  | LookedUp
  | Embedded nat
  | DocumentInserted
  | ChunksInserted nat
  | Committed
  | RolledBack

text \<open>A value stored into \<open>VARCHAR(n)\<close>: characters beyond \<open>n\<close> are an error unless they
  are all spaces, which are cut off.\<close>

definition varchar :: "nat \<Rightarrow> string \<Rightarrow> error + string" where
  "varchar n s =
     (if length s \<le> n then Inr s
      else if \<forall>c \<in> set (drop n s). c = CHR '' '' then Inr (take n s)
      else Inl StringDataRightTruncation)"

text \<open>\<open>INSERT INTO policy_documents ... RETURNING id\<close>: \<open>document_name\<close> is
  \<open>VARCHAR(255) NOT NULL\<close>, \<open>document_hash\<close> is \<open>UNIQUE\<close> (a hex digest always fits its
  64 characters), the key comes from the sequence.\<close>

definition insert_document ::
  "env \<Rightarrow> database \<Rightarrow> string option \<Rightarrow> string \<Rightarrow> int \<Rightarrow> json \<Rightarrow> database \<times> (error + int)" where
  "insert_document env db document_name doc_hash n_chunks md =
     (if db_fault env InsertDocument then (db, Inl (OperationalError InsertDocument))
      else
        (let new_id = documents_id_seq db;
             db1 = db\<lparr>documents_id_seq := new_id + 1\<rparr>
         in case document_name of
              None \<Rightarrow> (db1, Inl NotNullViolation)
            | Some name \<Rightarrow>
                (case varchar 255 name of
                   Inl e \<Rightarrow> (db1, Inl e)
                 | Inr stored_name \<Rightarrow>
                     if doc_hash \<in> set (map pd_document_hash (policy_documents db))
                     then (db1, Inl UniqueViolation)
                     else (db1\<lparr>policy_documents := policy_documents db @
                               [\<lparr>pd_id = new_id, pd_document_name = stored_name,
                                 pd_document_hash = doc_hash, pd_upload_date = now env,
                                 pd_total_chunks = n_chunks, pd_metadata = md\<rparr>]\<rparr>,
                           Inr new_id))))"

text \<open>The tuples of \<open>chunk_records\<close> (lines 346 to 361): \<open>zip\<close> stops at the shorter list;
  every chunk dictionary has its \<open>page_number\<close>, \<open>start_char\<close> and \<open>end_char\<close>, so the
  defaults of \<open>chunk.get\<close> are never taken.\<close>

type_synonym chunk_record = "int \<times> int \<times> string \<times> int \<times> (int \<times> int) \<times> vector"

definition chunk_records :: "int \<Rightarrow> chunk list \<Rightarrow> vector list \<Rightarrow> chunk_record list" where
  "chunk_records document_id chunks_data embeddings =
     map (\<lambda>(chunk, embedding).
            (document_id, c_chunk_index chunk, c_text chunk, c_page_number chunk,
             (c_start_char chunk, c_end_char chunk), embedding))
       (zip chunks_data embeddings)"

definition chunk_row :: "int \<Rightarrow> chunk_record \<Rightarrow> policy_chunk" where
  "chunk_row new_id r =
     (case r of (document_id, idx, txt, pg, md, emb) \<Rightarrow>
        \<lparr>pc_id = new_id, pc_document_id = document_id, pc_chunk_index = idx,
         pc_chunk_text = txt, pc_page_number = pg, pc_chunk_metadata = md,
         pc_embedding = emb\<rparr>)"

definition chunk_key :: "policy_chunk \<Rightarrow> int \<times> int" where
  "chunk_key c = (pc_document_id c, pc_chunk_index c)"

text \<open>\<open>execute_values\<close> with \<open>INSERT INTO policy_chunks\<close>: one statement for all rows,
  refused as a whole when the table would break \<open>UNIQUE(document_id, chunk_index)\<close>.\<close>

definition insert_chunks :: "env \<Rightarrow> database \<Rightarrow> chunk_record list \<Rightarrow> database \<times> (error + unit)" where
  "insert_chunks env db records =
     (if db_fault env InsertChunks then (db, Inl (OperationalError InsertChunks))
      else
        (let first_id = chunks_id_seq db;
             rows = map (\<lambda>(k, r). chunk_row (first_id + int k) r) (enumerate 0 records);
             db1 = db\<lparr>chunks_id_seq := first_id + int (length records)\<rparr>
         in if distinct (map chunk_key (policy_chunks db @ rows))
            then (db1\<lparr>policy_chunks := policy_chunks db @ rows\<rparr>, Inr ())
            else (db1, Inl UniqueViolation)))"

text \<open>\<open>conn.rollback()\<close>: the rows are those of the last commit, the sequences stay where
  the transaction left them.\<close>

definition rollback :: "database \<Rightarrow> database \<Rightarrow> database" where
  "rollback committed working =
     committed\<lparr>documents_id_seq := documents_id_seq working,
               chunks_id_seq := chunks_id_seq working\<rparr>"

section \<open>\<open>PolicyWordingRAG.add_policy_document\<close>\<close>

text \<open>Lines 300 to 310: the chunks and the text to hash. A string or a byte string is
  true in a condition when it is not empty.\<close>

definition truthy :: "'a list option \<Rightarrow> bool" where
  "truthy x = (case x of None \<Rightarrow> False | Some v \<Rightarrow> v \<noteq> [])"

definition prepare_chunks ::
  "env \<Rightarrow> pdf_processor \<Rightarrow> string option \<Rightarrow> bytes option
     \<Rightarrow> (event list \<times> (error + chunk list \<times> string)) option" where
  "prepare_chunks env p document_text pdf_bytes =
     (if truthy pdf_bytes \<and> \<not> truthy document_text then
        (case process_pdf_bytes env p (the pdf_bytes) of
           None \<Rightarrow> None
         | Some chunks_data \<Rightarrow>
             if chunks_data = [] then Some ([Chunked], Inl ExtractionFailed)
             else Some ([Chunked], Inr (chunks_data, py_join '' '' (map c_text chunks_data))))
      else if truthy document_text then
        (case chunk_text p (the document_text) 1 of
           None \<Rightarrow> None
         | Some chunks_data \<Rightarrow> Some ([Chunked], Inr (chunks_data, the document_text)))
      else Some ([], Inl NoInput))"

text \<open>Lines 312 to 378, after the chunks are there. The result is the database after
  the call, what the call did, and the returned pair or the exception raised again by
  the handler after \<open>conn.rollback()\<close>.\<close>

definition store_document ::
  "env \<Rightarrow> database \<Rightarrow> string option \<Rightarrow> json option \<Rightarrow> chunk list \<Rightarrow> string
     \<Rightarrow> database \<times> event list \<times> (error + int \<times> int)" where
  "store_document env db document_name metadata chunks_data document_text =
     (let doc_hash = sha256 env document_text in
      if db_fault env SelectByHash
      then (rollback db db, [Hashed, RolledBack], Inl (OperationalError SelectByHash))
      else
        (case find (\<lambda>d. pd_document_hash d = doc_hash) (policy_documents db) of
           Some existing \<Rightarrow>
             (db, [Hashed, LookedUp], Inr (pd_id existing, pd_total_chunks existing))
         | None \<Rightarrow>
             (let chunk_texts = map c_text chunks_data;
                  embeddings = generate_embeddings_batch env chunk_texts;
                  so_far = [Hashed, LookedUp, Embedded (length chunk_texts)]
              in case insert_document env db document_name doc_hash
                        (int (length chunks_data))
                        (case metadata of None \<Rightarrow> [] | Some m \<Rightarrow> m) of
                   (db1, Inl e) \<Rightarrow> (rollback db db1, so_far @ [RolledBack], Inl e)
                 | (db1, Inr document_id) \<Rightarrow>
                     (case insert_chunks env db1
                             (chunk_records document_id chunks_data embeddings) of
                        (db2, Inl e) \<Rightarrow>
                          (rollback db db2, so_far @ [DocumentInserted, RolledBack], Inl e)
                      | (db2, Inr u) \<Rightarrow>
                          if db_fault env Commit
                          then (rollback db db2,
                                so_far @ [DocumentInserted, ChunksInserted (length chunks_data),
                                        RolledBack],
                                Inl (OperationalError Commit))
                          else (db2,
                                so_far @ [DocumentInserted, ChunksInserted (length chunks_data),
                                        Committed],
                                Inr (document_id, int (length chunks_data)))))))"

text \<open>The whole method. \<open>_get_connection\<close> is called before the \<open>try\<close>: its failure
  reaches the caller with nothing done. \<open>None\<close> is a call that never returns.\<close>

definition add_policy_document ::
  "env \<Rightarrow> pdf_processor \<Rightarrow> database \<Rightarrow> string option \<Rightarrow> string option \<Rightarrow> bytes option
     \<Rightarrow> json option \<Rightarrow> (database \<times> event list \<times> (error + int \<times> int)) option" where
  "add_policy_document env p db document_text document_name pdf_bytes metadata =
     (if db_fault env Connect then Some (db, [], Inl ConnectionError)
      else
        (case prepare_chunks env p document_text pdf_bytes of
           None \<Rightarrow> None
         | Some (evs, Inl e) \<Rightarrow> Some (rollback db db, evs @ [RolledBack], Inl e)
         | Some (evs, Inr (chunks_data, text)) \<Rightarrow>
             (case store_document env db document_name metadata chunks_data text of
                (db', evs', r) \<Rightarrow> Some (db', evs @ evs', r))))"

section \<open>\<open>PolicyWordingRAG.search_similar_chunks\<close>\<close>

text \<open>\<open>np.linalg.norm\<close> and \<open>np.dot\<close> on vectors; \<open>np.dot\<close> raises \<open>ValueError\<close> on
  vectors of different lengths.\<close>

definition norm_l2 :: "vector \<Rightarrow> real" where
  "norm_l2 v = sqrt (sum_list (map (\<lambda>x. x * x) v))"

definition dot :: "vector \<Rightarrow> vector \<Rightarrow> real option" where
  "dot u v = (if length u = length v then Some (sum_list (map (\<lambda>(x, y). x * y) (zip u v)))
              else None)"

text \<open>Lines 440 to 447: the score of one stored embedding, \<open>None\<close> when \<open>np.dot\<close> raises.\<close>

definition similarity :: "vector \<Rightarrow> vector \<Rightarrow> real option" where
  "similarity query_embedding stored_embedding =
     (let query_norm = norm_l2 query_embedding;
          stored_norm = norm_l2 stored_embedding
      in if stored_norm > 0 \<and> query_norm > 0
         then map_option (\<lambda>d. d / (query_norm * stored_norm)) (dot query_embedding stored_embedding)
         else Some 0)"

record scored_chunk =
  r_chunk_id :: int
  r_document_id :: int
  r_document_name :: string
  r_chunk_index :: int
  r_chunk_text :: string
  r_page_number :: int
  r_chunk_metadata :: "int \<times> int"
  r_similarity_score :: real

text \<open>The rows of the \<open>SELECT\<close>: chunks joined with their documents, the page filter only
  when \<open>min_page > 0\<close>, the document filter only when \<open>document_id\<close> is neither \<open>None\<close>
  nor 0. The statement has no \<open>ORDER BY\<close>; the rows come in table order here.\<close>

definition select_chunks ::
  "database \<Rightarrow> int option \<Rightarrow> int \<Rightarrow> (policy_chunk \<times> policy_document) list" where
  "select_chunks db document_id min_page =
     filter (\<lambda>(pc, pd).
               (min_page > 0 \<longrightarrow> pc_page_number pc > min_page) \<and>
               (case document_id of
                  None \<Rightarrow> True
                | Some i \<Rightarrow> i \<noteq> 0 \<longrightarrow> pc_document_id pc = i))
       (List.map_filter
          (\<lambda>pc. map_option (\<lambda>pd. (pc, pd))
                  (find (\<lambda>pd. pd_id pd = pc_document_id pc) (policy_documents db)))
          (policy_chunks db))"

definition score_row :: "vector \<Rightarrow> policy_chunk \<times> policy_document \<Rightarrow> scored_chunk option" where
  "score_row query_embedding row =
     (case row of (pc, pd) \<Rightarrow>
        map_option
          (\<lambda>s. \<lparr>r_chunk_id = pc_id pc, r_document_id = pc_document_id pc,
                r_document_name = pd_document_name pd, r_chunk_index = pc_chunk_index pc,
                r_chunk_text = pc_chunk_text pc, r_page_number = pc_page_number pc,
                r_chunk_metadata = pc_chunk_metadata pc, r_similarity_score = s\<rparr>)
          (similarity query_embedding (pc_embedding pc)))"

text \<open>\<open>similarities.sort(key=..., reverse=True)\<close>: Python's sort is stable, also in
  reverse, so rows of equal score keep their order.\<close>

definition sort_by_score :: "scored_chunk list \<Rightarrow> scored_chunk list" where
  "sort_by_score xs = sort_key (\<lambda>r. - r_similarity_score r) xs"

text \<open>The whole method: a failed connection raises (the call is before the \<open>try\<close>), every
  other exception is caught and answered with the empty list.\<close>

definition search_similar_chunks ::
  "env \<Rightarrow> database \<Rightarrow> string \<Rightarrow> int \<Rightarrow> int option \<Rightarrow> int \<Rightarrow> error + scored_chunk list" where
  "search_similar_chunks env db query top_k document_id min_page =
     (if db_fault env Connect then Inl ConnectionError
      else
        (let query_embedding = generate_embedding env query in
         if db_fault env SelectChunks then Inr []
         else
           (let results = select_chunks db document_id min_page in
            if results = [] then Inr []
            else
              (case those (map (score_row query_embedding) results) of
                 None \<Rightarrow> Inr []
               | Some similarities \<Rightarrow> Inr (py_prefix (sort_by_score similarities) top_k)))))"

section \<open>Concrete inputs\<close>

text \<open>299 letters, a full stop, 1300 letters.\<close>

definition c4_text :: string where
  "c4_text = replicate 299 CHR ''b'' @ ''.'' @ replicate 1300 CHR ''b''"

text \<open>A two-page PDF, a working model and a working database.\<close>

definition c3_env :: env where
  "c3_env = \<lparr>encode = (\<lambda>t. Some [1, 0]), sha256 = (\<lambda>t. t),
             pdf_reader = (\<lambda>b. Some [''Hello.'', ''World.'']), clean_text = (\<lambda>t. t),
             now = 0, db_fault = (\<lambda>s. False)\<rparr>"

definition empty_db :: database where
  "empty_db = \<lparr>policy_documents = [], policy_chunks = [], documents_id_seq = 1, chunks_id_seq = 1\<rparr>"

text \<open>The database after the text \<open>Hello.\<close> has been ingested into the empty one.\<close>

definition c1_db :: database where
  "c1_db = \<lparr>policy_documents =
              [\<lparr>pd_id = 1, pd_document_name = ''note'', pd_document_hash = ''Hello.'',
                pd_upload_date = 0, pd_total_chunks = 1, pd_metadata = []\<rparr>],
            policy_chunks =
              [\<lparr>pc_id = 1, pc_document_id = 1, pc_chunk_index = 0,
                pc_chunk_text = ''Hello.'', pc_page_number = 1,
                pc_chunk_metadata = (0, 1500), pc_embedding = [1, 0]\<rparr>],
            documents_id_seq = 2, chunks_id_seq = 2\<rparr>"


text \<open>A PDF whose first page has no text, and the database after its ingestion into the
  empty one.\<close>

definition c10_env :: env where
  "c10_env = \<lparr>encode = (\<lambda>t. Some [1, 0]), sha256 = (\<lambda>t. t),
              pdf_reader = (\<lambda>b. Some [''   '', ''World.'']), clean_text = (\<lambda>t. t),
              now = 0, db_fault = (\<lambda>s. False)\<rparr>"

definition c10_db :: database where
  "c10_db = \<lparr>policy_documents =
              [\<lparr>pd_id = 1, pd_document_name = ''scan.pdf'', pd_document_hash = ''World.'',
                pd_upload_date = 0, pd_total_chunks = 1, pd_metadata = []\<rparr>],
            policy_chunks =
              [\<lparr>pc_id = 1, pc_document_id = 1, pc_chunk_index = 0,
                pc_chunk_text = ''World.'', pc_page_number = 2,
                pc_chunk_metadata = (0, 1500), pc_embedding = [1, 0]\<rparr>],
            documents_id_seq = 2, chunks_id_seq = 2\<rparr>"

text \<open>A store with one document of four chunks; the third has the zero embedding.\<close>

definition c6_db :: database where
  "c6_db = \<lparr>policy_documents =
              [\<lparr>pd_id = 1, pd_document_name = ''policy'', pd_document_hash = ''h'',
                pd_upload_date = 0, pd_total_chunks = 4, pd_metadata = []\<rparr>],
            policy_chunks =
              [\<lparr>pc_id = 1, pc_document_id = 1, pc_chunk_index = 0, pc_chunk_text = ''a'',
                pc_page_number = 1, pc_chunk_metadata = (0, 1500), pc_embedding = [0, 1]\<rparr>,
               \<lparr>pc_id = 2, pc_document_id = 1, pc_chunk_index = 1, pc_chunk_text = ''b'',
                pc_page_number = 1, pc_chunk_metadata = (1200, 2700), pc_embedding = [1, 0]\<rparr>,
               \<lparr>pc_id = 3, pc_document_id = 1, pc_chunk_index = 2, pc_chunk_text = ''c'',
                pc_page_number = 2, pc_chunk_metadata = (2400, 3900), pc_embedding = [0, 0]\<rparr>,
               \<lparr>pc_id = 4, pc_document_id = 1, pc_chunk_index = 3, pc_chunk_text = ''d'',
                pc_page_number = 2, pc_chunk_metadata = (3600, 5100), pc_embedding = [1, 0]\<rparr>],
            documents_id_seq = 2, chunks_id_seq = 5\<rparr>"

section \<open>Properties of the chunker\<close>

text \<open>A window whose successor starts where it started is repeated forever.\<close>

lemma chunk_loop_stuck:
  assumes lt: "start < int (length text)"
    and fp: "window_end p text start - chunk_overlap p = start"
  shows "chunk_loop p text pg start idx chunks = None"
proof (rule ccontr)
  assume "chunk_loop p text pg start idx chunks \<noteq> None"
  then obtain y where y: "chunk_loop p text pg start idx chunks = Some y" by auto
  have "\<not> (p = p \<and> text = text \<and> start = start)"
  proof (rule chunk_loop.raw_induct
      [where P = "\<lambda>q t g s i c r. \<not> (q = p \<and> t = text \<and> s = start)", OF _ y])
    fix f q t g s i c r
    assume IH: "\<And>q t g s i c r. f q t g s i c = Some r \<Longrightarrow> \<not> (q = p \<and> t = text \<and> s = start)"
      and step: "(if s < int (length t) then
        (let end = window_end q t s;
             ct = strip (py_slice t s end)
         in if ct \<noteq> [] then
              f q t g (end - chunk_overlap q) (i + 1)
                (c @ [\<lparr>c_text = ct, c_page_number = g, c_chunk_index = i,
                            c_start_char = s, c_end_char = end\<rparr>])
            else f q t g (end - chunk_overlap q) i c)
      else Some c) = Some r"
    show "\<not> (q = p \<and> t = text \<and> s = start)"
    proof
      assume eq: "q = p \<and> t = text \<and> s = start"
      with step lt fp obtain i2 c2 where "f p text g start i2 c2 = Some r"
        by (auto simp: Let_def split: if_splits)
      from IH[OF this] show False by simp
    qed
  qed
  then show False by simp
qed

lemma sub_ws_no_space: "\<forall>c \<in> set t. \<not> is_space c \<Longrightarrow> sub_ws b t = t"
  by (induction t arbitrary: b) auto

lemma dropWhile_none: "\<forall>c \<in> set t. \<not> P c \<Longrightarrow> dropWhile P t = t"
  by (cases t) auto

lemma strip_no_space: "\<forall>c \<in> set t. \<not> is_space c \<Longrightarrow> strip t = t"
  by (simp add: strip_def dropWhile_none)

lemma py_index_le: "py_index n i \<le> n"
  by (auto simp: py_index_def)

lemma rfind_absent: "c \<notin> set text \<Longrightarrow> rfind text c s e = - 1"
proof -
  assume a: "c \<notin> set text"
  have "filter (\<lambda>i. text ! i = c) [py_index (length text) s..<py_index (length text) e] = []"
    using a py_index_le[of "length text" e] by (auto simp: filter_empty_conv)
  then show ?thesis by (simp add: rfind_def Let_def)
qed

lemma rfind_last:
  assumes "py_index (length text) s \<le> k" "k < py_index (length text) e"
    and "text ! k = c"
    and "\<forall>i. k < i \<and> i < py_index (length text) e \<longrightarrow> text ! i \<noteq> c"
  shows "rfind text c s e = int k"
proof -
  let ?a = "py_index (length text) s" and ?b = "py_index (length text) e"
  have "[?a..<Suc k + (?b - Suc k)] = [?a..<Suc k] @ [Suc k..<Suc k + (?b - Suc k)]"
    using assms(1) by (intro upt_add_eq_append) simp
  then have split: "[?a..<?b] = [?a..<k] @ [k] @ [Suc k..<?b]"
    using assms(1,2) by simp
  have "filter (\<lambda>i. text ! i = c) [Suc k..<?b] = []"
    using assms(4) by (auto simp: filter_empty_conv)
  then have "filter (\<lambda>i. text ! i = c) [?a..<?b] = filter (\<lambda>i. text ! i = c) [?a..<k] @ [k]"
    using assms(3) by (simp add: split)
  then show ?thesis by (simp add: rfind_def Let_def)
qed

lemma c4_len: "length c4_text = 1600" by (simp add: c4_text_def)

lemma c4_no_space: "\<forall>c \<in> set c4_text. \<not> is_space c"
  by (auto simp: c4_text_def is_space_def)

lemma c4_window: "window_end default_processor c4_text 0 = 300"
proof -
  have 1: "rfind c4_text CHR ''!'' 0 1500 = - 1" "rfind c4_text CHR ''?'' 0 1500 = - 1"
    by (rule rfind_absent, simp add: c4_text_def)+
  have 2: "rfind c4_text CHR ''.'' 0 1500 = int 299"
    by (rule rfind_last) (auto simp: py_index_def c4_len c4_text_def nth_append)
  show ?thesis
    by (simp add: window_end_def default_processor_def c4_len 1 2)
qed

text \<open>
  C4. The claim is that chunking terminates for every text when the overlap is smaller
  than the chunk size, in particular with the defaults 1500 and 300. The code does not:
  on the 1600 characters of \<open>c4_text\<close> the first window is pulled back to the full stop
  at offset 299, the next window starts at \<open>300 - 300 = 0\<close> again, and the loop repeats
  that window forever.
\<close>

theorem chunk_text_never_returns:
  "chunk_text default_processor c4_text 1 = None"
proof -
  have "strip (collapse_ws c4_text) = c4_text"
    using c4_no_space by (simp add: collapse_ws_def sub_ws_no_space strip_no_space)
  moreover have "chunk_loop default_processor c4_text 1 0 0 [] = None"
  proof (rule chunk_loop_stuck)
    show "0 < int (length c4_text)" by (simp add: c4_len)
    show "window_end default_processor c4_text 0 - chunk_overlap default_processor = 0"
      by (simp add: c4_window) (simp add: default_processor_def)
  qed
  ultimately show ?thesis by (simp add: chunk_text_def)
qed


lemma strip_fixed:
  assumes "s = [] \<or> (\<not> is_space (hd s) \<and> \<not> is_space (last s))"
  shows "strip s = s"
proof (cases s)
  case Nil
  then show ?thesis by (simp add: strip_def)
next
  case (Cons x xs)
  with assms have h: "\<not> is_space x" and l: "\<not> is_space (last s)" by auto
  have 1: "dropWhile is_space s = s" using h Cons by simp
  have "s \<noteq> []" using Cons by simp
  then obtain ys y where ys: "s = ys @ [y]" by (metis rev_exhaust)
  have 2: "dropWhile is_space (rev s) = rev s" using l by (simp add: ys)
  show ?thesis by (simp add: strip_def 1 2)
qed

lemma strip_ends:
  "strip s = [] \<or> (\<not> is_space (hd (strip s)) \<and> \<not> is_space (last (strip s)))"
proof (cases "strip s = []")
  case True
  then show ?thesis by simp
next
  case False
  let ?d = "dropWhile is_space s"
  let ?e = "dropWhile is_space (rev ?d)"
  have r: "strip s = rev ?e" by (simp add: strip_def)
  with False have ne: "?e \<noteq> []" by simp
  then have "\<not> is_space (hd ?e)" by (rule hd_dropWhile)
  then have l: "\<not> is_space (last (strip s))" using ne by (simp add: r last_rev)
  have "rev (rev ?d) = rev (takeWhile is_space (rev ?d) @ ?e)"
    by (simp only: takeWhile_dropWhile_id)
  then have "?d = rev ?e @ rev (takeWhile is_space (rev ?d))"
    by (simp only: rev_rev_ident rev_append)
  then have d: "?d = strip s @ rev (takeWhile is_space (rev ?d))"
    by (simp only: r)
  then have "?d \<noteq> []" using False by (metis append_is_Nil_conv)
  then have "\<not> is_space (hd ?d)" by (rule hd_dropWhile)
  moreover have "hd ?d = hd (strip s)" using False by (subst d) simp
  ultimately show ?thesis using l by simp
qed

lemma strip_strip: "strip (strip s) = strip s"
  by (rule strip_fixed) (rule strip_ends)

lemma py_slice_all: "int (length xs) \<le> e \<Longrightarrow> py_slice xs 0 e = xs"
  by (simp add: py_slice_def py_index_def)

text \<open>A text that fits one window and leaves nothing behind the overlap is one chunk.\<close>

lemma chunk_text_short:
  assumes t: "strip (collapse_ws text) = t" and ne: "t \<noteq> []"
    and fit: "int (length t) \<le> chunk_size p - chunk_overlap p"
    and ov: "0 \<le> chunk_overlap p"
  shows "chunk_text p text pg =
         Some [\<lparr>c_text = t, c_page_number = pg, c_chunk_index = 0,
                c_start_char = 0, c_end_char = chunk_size p\<rparr>]"
proof -
  have w: "window_end p t 0 = chunk_size p"
    using fit ov by (simp add: window_end_def)
  have s: "strip (py_slice t 0 (chunk_size p)) = t"
    using fit ov t strip_strip[of "collapse_ws text"] by (simp add: py_slice_all)
  have "chunk_loop p t pg 0 0 [] =
        chunk_loop p t pg (chunk_size p - chunk_overlap p) 1
          [\<lparr>c_text = t, c_page_number = pg, c_chunk_index = 0,
            c_start_char = 0, c_end_char = chunk_size p\<rparr>]"
    using ne by (subst chunk_loop.simps) (simp add: w s Let_def)
  also have "\<dots> = Some [\<lparr>c_text = t, c_page_number = pg, c_chunk_index = 0,
            c_start_char = 0, c_end_char = chunk_size p\<rparr>]"
    using fit by (subst chunk_loop.simps) simp
  finally show ?thesis by (simp add: chunk_text_def t)
qed

lemma short_page:
  assumes "\<forall>c \<in> set t. \<not> is_space c" "t \<noteq> []" "length t \<le> 1200"
  shows "chunk_text default_processor t pg =
         Some [\<lparr>c_text = t, c_page_number = pg, c_chunk_index = 0,
                c_start_char = 0, c_end_char = 1500\<rparr>]"
proof -
  have "strip (collapse_ws t) = t"
    using assms(1) by (simp add: collapse_ws_def sub_ws_no_space strip_no_space)
  from chunk_text_short[OF this assms(2), of default_processor pg] assms(3)
  show ?thesis by (simp add: default_processor_def)
qed

lemma c3_pages:
  "extract_text_from_pdf c3_env ''%PDF'' = [(''Hello.'', 1), (''World.'', 2)]"
  by (simp add: extract_text_from_pdf_def c3_env_def enumerate_eq_zip strip_def is_space_def
        upt_conv_Cons)

lemma c3_chunks:
  "process_pdf_bytes c3_env default_processor ''%PDF'' =
   Some [\<lparr>c_text = ''Hello.'', c_page_number = 1, c_chunk_index = 0,
           c_start_char = 0, c_end_char = 1500\<rparr>,
         \<lparr>c_text = ''World.'', c_page_number = 2, c_chunk_index = 0,
           c_start_char = 0, c_end_char = 1500\<rparr>]"
proof -
  have 1: "chunk_text default_processor ''Hello.'' 1 =
         Some [\<lparr>c_text = ''Hello.'', c_page_number = 1, c_chunk_index = 0,
                c_start_char = 0, c_end_char = 1500\<rparr>]"
    by (rule short_page) (auto simp: is_space_def)
  have 2: "chunk_text default_processor ''World.'' 2 =
         Some [\<lparr>c_text = ''World.'', c_page_number = 2, c_chunk_index = 0,
                c_start_char = 0, c_end_char = 1500\<rparr>]"
    by (rule short_page) (auto simp: is_space_def)
  show ?thesis by (simp add: process_pdf_bytes_def c3_pages 1 2)
qed

lemma c3_embeddings:
  "generate_embeddings_batch c3_env [''Hello.'', ''World.''] = [[1, 0], [1, 0]]"
  by (simp add: generate_embeddings_batch_def encode_batch_def c3_env_def batches.simps)

lemma c3_ingest:
  "add_policy_document c3_env default_processor empty_db None (Some ''policy.pdf'')
       (Some ''%PDF'') None =
     Some (\<lparr>policy_documents = [], policy_chunks = [], documents_id_seq = 2,
             chunks_id_seq = 3\<rparr>,
           [Chunked, Hashed, LookedUp, Embedded 2, DocumentInserted, RolledBack],
           Inl UniqueViolation)"
proof -
  have f: "db_fault c3_env s = False" for s by (simp add: c3_env_def)
  have prep: "prepare_chunks c3_env default_processor None (Some ''%PDF'') =
     Some ([Chunked], Inr ([\<lparr>c_text = ''Hello.'', c_page_number = 1, c_chunk_index = 0,
             c_start_char = 0, c_end_char = 1500\<rparr>,
           \<lparr>c_text = ''World.'', c_page_number = 2, c_chunk_index = 0,
             c_start_char = 0, c_end_char = 1500\<rparr>], ''Hello. World.''))"
    by (simp add: prepare_chunks_def truthy_def c3_chunks)
  have ins: "insert_document c3_env empty_db (Some ''policy.pdf'') ''Hello. World.'' 2 [] =
     (\<lparr>policy_documents = [\<lparr>pd_id = 1, pd_document_name = ''policy.pdf'',
          pd_document_hash = ''Hello. World.'', pd_upload_date = 0, pd_total_chunks = 2,
          pd_metadata = []\<rparr>], policy_chunks = [], documents_id_seq = 2, chunks_id_seq = 1\<rparr>, Inr 1)"
    by (simp add: insert_document_def f varchar_def empty_db_def Let_def) (simp add: c3_env_def)
  have sha: "sha256 c3_env t = t" for t by (simp add: c3_env_def)
  have recs: "chunk_records 1 [\<lparr>c_text = ''Hello.'', c_page_number = 1, c_chunk_index = 0,
             c_start_char = 0, c_end_char = 1500\<rparr>,
           \<lparr>c_text = ''World.'', c_page_number = 2, c_chunk_index = 0,
             c_start_char = 0, c_end_char = 1500\<rparr>] [[1, 0], [1, 0]] =
        [(1, 0, ''Hello.'', 1, (0, 1500), [1, 0]), (1, 0, ''World.'', 2, (0, 1500), [1, 0])]"
    by (simp add: chunk_records_def)
  have chk: "insert_chunks c3_env
       \<lparr>policy_documents = [\<lparr>pd_id = 1, pd_document_name = ''policy.pdf'',
          pd_document_hash = ''Hello. World.'', pd_upload_date = 0, pd_total_chunks = 2,
          pd_metadata = []\<rparr>], policy_chunks = [], documents_id_seq = 2, chunks_id_seq = 1\<rparr>
       [(1, 0, ''Hello.'', 1, (0, 1500), [1, 0]), (1, 0, ''World.'', 2, (0, 1500), [1, 0])] =
     (\<lparr>policy_documents = [\<lparr>pd_id = 1, pd_document_name = ''policy.pdf'',
          pd_document_hash = ''Hello. World.'', pd_upload_date = 0, pd_total_chunks = 2,
          pd_metadata = []\<rparr>], policy_chunks = [], documents_id_seq = 2, chunks_id_seq = 3\<rparr>,
      Inl UniqueViolation)"
    by (simp add: insert_chunks_def f enumerate_eq_zip upt_conv_Cons chunk_row_def chunk_key_def
          Let_def)
  have store: "store_document c3_env empty_db (Some ''policy.pdf'') None
       [\<lparr>c_text = ''Hello.'', c_page_number = 1, c_chunk_index = 0,
             c_start_char = 0, c_end_char = 1500\<rparr>,
           \<lparr>c_text = ''World.'', c_page_number = 2, c_chunk_index = 0,
             c_start_char = 0, c_end_char = 1500\<rparr>] ''Hello. World.'' =
     (\<lparr>policy_documents = [], policy_chunks = [], documents_id_seq = 2, chunks_id_seq = 3\<rparr>,
      [Hashed, LookedUp, Embedded 2, DocumentInserted, RolledBack], Inl UniqueViolation)"
  proof -
    have e: "policy_documents empty_db = []" by (simp add: empty_db_def)
    have rb: "rollback empty_db db = \<lparr>policy_documents = [], policy_chunks = [],
        documents_id_seq = documents_id_seq db, chunks_id_seq = chunks_id_seq db\<rparr>" for db
      by (simp add: empty_db_def rollback_def)
    show ?thesis
      unfolding store_document_def
      by (simp add: sha f e rb c3_embeddings ins recs chk Let_def)
  qed
  show ?thesis
    by (simp add: add_policy_document_def f prep store)
qed

text \<open>
  C3. The claim is that the chunk indices of a document, plain text or multi-page PDF,
  are positions within the whole document, so that the batch insert never violates
  \<open>UNIQUE(document_id, chunk_index)\<close>. The code numbers the chunks of every page from 0:
  a PDF with two pages of text yields two chunks with index 0, the insert is refused and
  the ingestion is rolled back.
\<close>

theorem multi_page_pdf_violates_unique:
  "process_pdf_bytes c3_env default_processor ''%PDF'' =
     Some [\<lparr>c_text = ''Hello.'', c_page_number = 1, c_chunk_index = 0,
             c_start_char = 0, c_end_char = 1500\<rparr>,
           \<lparr>c_text = ''World.'', c_page_number = 2, c_chunk_index = 0,
             c_start_char = 0, c_end_char = 1500\<rparr>]
   \<and> add_policy_document c3_env default_processor empty_db None (Some ''policy.pdf'')
       (Some ''%PDF'') None =
     Some (\<lparr>policy_documents = [], policy_chunks = [], documents_id_seq = 2,
             chunks_id_seq = 3\<rparr>,
           [Chunked, Hashed, LookedUp, Embedded 2, DocumentInserted, RolledBack],
           Inl UniqueViolation)"
  using c3_chunks c3_ingest by simp

section \<open>What a returning chunker returns\<close>

lemma chunk_loop_result:
  assumes "chunk_loop p text pg start idx chunks = Some r"
  shows "\<exists>new. r = chunks @ new
           \<and> map c_chunk_index new = map (\<lambda>k. idx + int k) [0..<length new]
           \<and> (\<forall>c \<in> set new. c_page_number c = pg \<and> c_text c \<noteq> [])"
proof (rule chunk_loop.raw_induct
    [where P = "\<lambda>p text pg start idx chunks r. \<exists>new. r = chunks @ new
           \<and> map c_chunk_index new = map (\<lambda>k. idx + int k) [0..<length new]
           \<and> (\<forall>c \<in> set new. c_page_number c = pg \<and> c_text c \<noteq> [])", OF _ assms])
  fix f q t g s i c r
  assume IH: "\<And>q t g s i c r. f q t g s i c = Some r \<Longrightarrow>
        \<exists>new. r = c @ new
           \<and> map c_chunk_index new = map (\<lambda>k. i + int k) [0..<length new]
           \<and> (\<forall>x \<in> set new. c_page_number x = g \<and> c_text x \<noteq> [])"
    and step: "(if s < int (length t) then
        (let end = window_end q t s;
             ct = strip (py_slice t s end)
         in if ct \<noteq> [] then
              f q t g (end - chunk_overlap q) (i + 1)
                (c @ [\<lparr>c_text = ct, c_page_number = g, c_chunk_index = i,
                            c_start_char = s, c_end_char = end\<rparr>])
            else f q t g (end - chunk_overlap q) i c)
      else Some c) = Some r"
  let ?end = "window_end q t s"
  let ?ct = "strip (py_slice t s ?end)"
  let ?c = "\<lparr>c_text = ?ct, c_page_number = g, c_chunk_index = i,
                            c_start_char = s, c_end_char = ?end\<rparr>"
  show "\<exists>new. r = c @ new
           \<and> map c_chunk_index new = map (\<lambda>k. i + int k) [0..<length new]
           \<and> (\<forall>x \<in> set new. c_page_number x = g \<and> c_text x \<noteq> [])"
  proof (cases "s < int (length t)")
    case False
    with step have "r = c" by simp
    then show ?thesis by simp
  next
    case True
    show ?thesis
    proof (cases "?ct \<noteq> []")
      case False
      with step True have "f q t g (?end - chunk_overlap q) i c = Some r"
        by (simp add: Let_def)
      from IH[OF this] show ?thesis .
    next
      case ne: True
      with step True have "f q t g (?end - chunk_overlap q) (i + 1) (c @ [?c]) = Some r"
        by (simp add: Let_def)
      from IH[OF this] obtain new where new: "r = (c @ [?c]) @ new"
        "map c_chunk_index new = map (\<lambda>k. i + 1 + int k) [0..<length new]"
        "\<forall>x \<in> set new. c_page_number x = g \<and> c_text x \<noteq> []" by blast
      have "map c_chunk_index (?c # new) = map (\<lambda>k. i + int k) [0..<length (?c # new)]"
        using new(2) by (simp add: map_upt_Suc add.assoc del: upt_Suc)
      moreover have "\<forall>x \<in> set (?c # new). c_page_number x = g \<and> c_text x \<noteq> []"
        using new(3) ne by simp
      moreover have "r = c @ (?c # new)" using new(1) by simp
      ultimately show ?thesis by blast
    qed
  qed
qed

lemma chunk_text_result:
  assumes "chunk_text p text pg = Some r"
  shows "map c_chunk_index r = map int [0..<length r]"
    and "\<forall>c \<in> set r. c_page_number c = pg \<and> c_text c \<noteq> []"
  using chunk_loop_result[OF assms[unfolded chunk_text_def]] by auto

lemma those_length: "those xs = Some ys \<Longrightarrow> length ys = length xs"
  by (induction xs arbitrary: ys) (auto split: option.splits)

lemma those_map_Some: "those (map f xs) = Some ys \<Longrightarrow> map Some ys = map f xs"
  by (induction xs arbitrary: ys) (auto split: option.splits)

lemma those_None_iff: "those xs = None \<longleftrightarrow> None \<in> set xs"
  by (induction xs) (auto split: option.splits)

lemma concat_batches: "0 < n \<Longrightarrow> concat (batches n xs) = xs"
proof (induction n xs rule: batches.induct)
  case (1 n xs)
  then show ?case by (subst batches.simps) auto
qed

lemma set_batches: "b \<in> set (batches n xs) \<Longrightarrow> set b \<subseteq> set xs"
proof (induction n xs rule: batches.induct)
  case (1 n xs)
  show ?case
  proof (cases "n = 0 \<or> xs = []")
    case True
    with 1(2) show ?thesis by (simp add: batches.simps)
  next
    case False
    with 1(2) have "b = take n xs \<or> b \<in> set (batches n (drop n xs))"
      by (subst (asm) batches.simps) auto
    then show ?thesis
    proof
      assume "b = take n xs"
      then show ?thesis by (auto dest: in_set_takeD)
    next
      assume "b \<in> set (batches n (drop n xs))"
      from 1(1)[OF False this] show ?thesis by (auto dest: in_set_dropD)
    qed
  qed
qed

section \<open>The embedding generator\<close>

lemma those_map_all:
  "\<forall>x \<in> set xs. f x \<noteq> None \<Longrightarrow> those (map f xs) = Some (map (the \<circ> f) xs)"
  by (induction xs) auto

lemma those_map_some_None:
  "\<exists>x \<in> set xs. f x = None \<Longrightarrow> those (map f xs) = None"
  by (induction xs) (auto split: option.splits)

lemma generate_embeddings_batch_ok:
  assumes "\<forall>t \<in> set texts. encode env t \<noteq> None"
  shows "generate_embeddings_batch env texts = map (the \<circ> encode env) texts"
proof -
  have each: "encode_batch env b = Some (map (the \<circ> encode env) b)"
    if "b \<in> set (batches 32 texts)" for b
    using set_batches[OF that] assms by (auto simp: encode_batch_def intro!: those_map_all)
  then have "\<forall>b \<in> set (batches 32 texts). encode_batch env b \<noteq> None" by simp
  then have "those (map (encode_batch env) (batches 32 texts)) =
        Some (map (the \<circ> encode_batch env) (batches 32 texts))"
    by (rule those_map_all)
  also have "map (the \<circ> encode_batch env) (batches 32 texts) =
        map (map (the \<circ> encode env)) (batches 32 texts)"
    using each by simp
  finally have "generate_embeddings_batch env texts =
        concat (map (map (the \<circ> encode env)) (batches 32 texts))"
    by (simp add: generate_embeddings_batch_def)
  also have "\<dots> = map (the \<circ> encode env) (concat (batches 32 texts))"
    by (simp add: map_concat)
  finally show ?thesis by (simp add: concat_batches)
qed

lemma generate_embeddings_batch_failed:
  assumes "t \<in> set texts" "encode env t = None"
  shows "generate_embeddings_batch env texts = map (\<lambda>_. zeros embedding_dim) texts"
proof -
  have "t \<in> set (concat (batches 32 texts))" using assms(1) by (simp add: concat_batches)
  then obtain b where b: "b \<in> set (batches 32 texts)" "t \<in> set b" by auto
  have "encode_batch env b = None"
    unfolding encode_batch_def using b(2) assms(2) by (intro those_map_some_None) auto
  then have "those (map (encode_batch env) (batches 32 texts)) = None"
    using b(1) by (intro those_map_some_None) auto
  then show ?thesis by (simp add: generate_embeddings_batch_def)
qed

lemma length_generate_embeddings_batch:
  "length (generate_embeddings_batch env texts) = length texts"
proof (cases "\<forall>t \<in> set texts. encode env t \<noteq> None")
  case True
  then show ?thesis by (simp add: generate_embeddings_batch_ok)
next
  case False
  then obtain t where "t \<in> set texts" "encode env t = None" by auto
  then show ?thesis by (simp add: generate_embeddings_batch_failed)
qed

section \<open>The database statements\<close>

lemma rollback_rows [simp]:
  "policy_documents (rollback db w) = policy_documents db"
  "policy_chunks (rollback db w) = policy_chunks db"
  by (simp_all add: rollback_def)

lemma insert_document_failed:
  assumes "insert_document env db name h n md = (db1, Inl e)"
  shows "policy_documents db1 = policy_documents db \<and> policy_chunks db1 = policy_chunks db"
  using assms
  by (auto simp: insert_document_def Let_def split: if_splits option.splits sum.splits)

lemma insert_document_done:
  assumes "insert_document env db name h n md = (db1, Inr i)"
  shows "i = documents_id_seq db
       \<and> (\<exists>stored. policy_documents db1 = policy_documents db @
             [\<lparr>pd_id = i, pd_document_name = stored, pd_document_hash = h,
               pd_upload_date = now env, pd_total_chunks = n, pd_metadata = md\<rparr>])
       \<and> policy_chunks db1 = policy_chunks db
       \<and> chunks_id_seq db1 = chunks_id_seq db"
  using assms
  by (auto simp: insert_document_def Let_def split: if_splits option.splits sum.splits)

lemma insert_chunks_failed:
  assumes "insert_chunks env db records = (db2, Inl e)"
  shows "policy_documents db2 = policy_documents db \<and> policy_chunks db2 = policy_chunks db"
  using assms by (auto simp: insert_chunks_def Let_def split: if_splits)

lemma if_pair_Inr:
  "(if c then (a, Inr u) else (b, Inl e)) = (x, Inr v) \<Longrightarrow> c \<and> x = a"
  by (auto split: if_splits)

lemma insert_chunks_done:
  assumes "insert_chunks env db records = (db2, Inr u)"
  shows "policy_documents db2 = policy_documents db
       \<and> policy_chunks db2 = policy_chunks db @
           map (\<lambda>(k, r). chunk_row (chunks_id_seq db + int k) r) (enumerate 0 records)
       \<and> distinct (map chunk_key (policy_chunks db2))"
proof -
  let ?rows = "map (\<lambda>(k, r). chunk_row (chunks_id_seq db + int k) r) (enumerate 0 records)"
  have nf: "\<not> db_fault env InsertChunks"
    using assms by (auto simp: insert_chunks_def)
  have "insert_chunks env db records =
        (if distinct (map chunk_key (policy_chunks db @ ?rows))
         then (db\<lparr>chunks_id_seq := chunks_id_seq db + int (length records)\<rparr>
                 \<lparr>policy_chunks := policy_chunks db @ ?rows\<rparr>, Inr ())
         else (db\<lparr>chunks_id_seq := chunks_id_seq db + int (length records)\<rparr>,
               Inl UniqueViolation))"
    using nf by (simp only: insert_chunks_def Let_def if_False)
  with assms have "distinct (map chunk_key (policy_chunks db @ ?rows)) \<and>
      db2 = db\<lparr>chunks_id_seq := chunks_id_seq db + int (length records)\<rparr>
                 \<lparr>policy_chunks := policy_chunks db @ ?rows\<rparr>"
    by (intro if_pair_Inr) (simp only:)
  then have d: "distinct (map chunk_key (policy_chunks db @ ?rows))"
    and e: "policy_chunks db2 = policy_chunks db @ ?rows"
    and f: "policy_documents db2 = policy_documents db"
    by simp_all
  from d e f show ?thesis by (simp only:)
qed

lemma store_document_failed:
  assumes "store_document env db name md chunks_data text = (db', evs, Inl e)"
  shows "policy_documents db' = policy_documents db \<and> policy_chunks db' = policy_chunks db"
  using assms unfolding store_document_def Let_def
  by (auto split: if_splits option.splits prod.splits sum.splits)

lemma store_document_hit:
  assumes "\<not> db_fault env SelectByHash"
    and "find (\<lambda>d. pd_document_hash d = sha256 env text) (policy_documents db) = Some d"
  shows "store_document env db name md chunks_data text =
         (db, [Hashed, LookedUp], Inr (pd_id d, pd_total_chunks d))"
  using assms by (simp add: store_document_def)

lemma chunk_rows_nth:
  assumes "length embeddings = length chunks_data" "k < length chunks_data"
  shows "map (\<lambda>(k, r). chunk_row (first_id + int k) r)
           (enumerate 0 (chunk_records i chunks_data embeddings)) ! k =
         \<lparr>pc_id = first_id + int k, pc_document_id = i,
          pc_chunk_index = c_chunk_index (chunks_data ! k),
          pc_chunk_text = c_text (chunks_data ! k),
          pc_page_number = c_page_number (chunks_data ! k),
          pc_chunk_metadata = (c_start_char (chunks_data ! k), c_end_char (chunks_data ! k)),
          pc_embedding = embeddings ! k\<rparr>"
  using assms by (simp add: chunk_records_def chunk_row_def nth_enumerate_eq)

lemma chunk_rows_props:
  fixes first_id i :: int and chunks_data :: "chunk list" and embeddings :: "vector list"
  assumes len: "length embeddings = length chunks_data"
  defines "rows \<equiv> map (\<lambda>(k, r). chunk_row (first_id + int k) r)
           (enumerate 0 (chunk_records i chunks_data embeddings))"
  shows "length rows = length chunks_data"
    and "map pc_document_id rows = map (\<lambda>_. i) chunks_data"
    and "map pc_chunk_index rows = map c_chunk_index chunks_data"
    and "map pc_page_number rows = map c_page_number chunks_data"
    and "map pc_chunk_text rows = map c_text chunks_data"
    and "map pc_embedding rows = embeddings"
proof -
  show l: "length rows = length chunks_data"
    using len by (simp add: rows_def chunk_records_def)
  have n: "rows ! k = \<lparr>pc_id = first_id + int k, pc_document_id = i,
          pc_chunk_index = c_chunk_index (chunks_data ! k),
          pc_chunk_text = c_text (chunks_data ! k),
          pc_page_number = c_page_number (chunks_data ! k),
          pc_chunk_metadata = (c_start_char (chunks_data ! k), c_end_char (chunks_data ! k)),
          pc_embedding = embeddings ! k\<rparr>" if "k < length chunks_data" for k
    unfolding rows_def using len that by (rule chunk_rows_nth)
  show "map pc_document_id rows = map (\<lambda>_. i) chunks_data"
    by (rule nth_equalityI) (simp_all add: l n)
  show "map pc_chunk_index rows = map c_chunk_index chunks_data"
    by (rule nth_equalityI) (simp_all add: l n)
  show "map pc_page_number rows = map c_page_number chunks_data"
    by (rule nth_equalityI) (simp_all add: l n)
  show "map pc_chunk_text rows = map c_text chunks_data"
    by (rule nth_equalityI) (simp_all add: l n)
  show "map pc_embedding rows = embeddings"
    by (rule nth_equalityI) (simp_all add: l n len)
qed

lemma store_document_inserted:
  assumes s: "store_document env db name md chunks_data text = (db', evs, Inr (i, n))"
    and fresh: "find (\<lambda>d. pd_document_hash d = sha256 env text) (policy_documents db) = None"
  shows "i = documents_id_seq db \<and> n = int (length chunks_data)
       \<and> (\<exists>stored. policy_documents db' = policy_documents db @
             [\<lparr>pd_id = i, pd_document_name = stored, pd_document_hash = sha256 env text,
               pd_upload_date = now env, pd_total_chunks = n,
               pd_metadata = (case md of None \<Rightarrow> [] | Some m \<Rightarrow> m)\<rparr>])
       \<and> policy_chunks db' = policy_chunks db @
             map (\<lambda>(k, r). chunk_row (chunks_id_seq db + int k) r)
               (enumerate 0 (chunk_records i chunks_data
                  (generate_embeddings_batch env (map c_text chunks_data))))
       \<and> distinct (map chunk_key (policy_chunks db'))
       \<and> evs = [Hashed, LookedUp, Embedded (length chunks_data), DocumentInserted,
                ChunksInserted (length chunks_data), Committed]"
proof -
  let ?h = "sha256 env text"
  let ?md = "case md of None \<Rightarrow> [] | Some m \<Rightarrow> m"
  let ?emb = "generate_embeddings_batch env (map c_text chunks_data)"
  obtain db1 r1 where i1: "insert_document env db name ?h (int (length chunks_data)) ?md = (db1, r1)"
    by (cases "insert_document env db name ?h (int (length chunks_data)) ?md") auto
  from s fresh i1 obtain j where r1: "r1 = Inr j"
    by (cases r1) (auto simp: store_document_def Let_def split: if_splits)
  obtain db2 r2 where i2: "insert_chunks env db1 (chunk_records j chunks_data ?emb) = (db2, r2)"
    by (cases "insert_chunks env db1 (chunk_records j chunks_data ?emb)") auto
  from s fresh i1 r1 i2 obtain u where r2: "r2 = Inr u"
    by (cases r2) (auto simp: store_document_def Let_def split: if_splits)
  from s fresh i1 r1 i2 r2 have res: "db' = db2" "i = j" "n = int (length chunks_data)"
    "evs = [Hashed, LookedUp, Embedded (length chunks_data), DocumentInserted,
                ChunksInserted (length chunks_data), Committed]"
    by (auto simp: store_document_def Let_def split: if_splits)
  note d1 = insert_document_done[OF i1[unfolded r1]]
  note d2 = insert_chunks_done[OF i2[unfolded r2]]
  from d1 have j: "j = documents_id_seq db" and c1: "policy_chunks db1 = policy_chunks db"
    and q1: "chunks_id_seq db1 = chunks_id_seq db" by simp_all
  from d1 obtain stored where docs1: "policy_documents db1 = policy_documents db @
             [\<lparr>pd_id = j, pd_document_name = stored, pd_document_hash = ?h,
               pd_upload_date = now env, pd_total_chunks = int (length chunks_data),
               pd_metadata = ?md\<rparr>]" by blast
  from d2 have docs2: "policy_documents db2 = policy_documents db1"
    and c2: "policy_chunks db2 = policy_chunks db1 @
           map (\<lambda>(k, r). chunk_row (chunks_id_seq db1 + int k) r)
             (enumerate 0 (chunk_records j chunks_data ?emb))"
    and dist: "distinct (map chunk_key (policy_chunks db2))" by blast+
  have A: "i = documents_id_seq db \<and> n = int (length chunks_data)"
    using res j by simp
  have B: "\<exists>stored. policy_documents db' = policy_documents db @
             [\<lparr>pd_id = i, pd_document_name = stored, pd_document_hash = ?h,
               pd_upload_date = now env, pd_total_chunks = n, pd_metadata = ?md\<rparr>]"
    using res docs1 docs2 by simp
  have C: "policy_chunks db' = policy_chunks db @
             map (\<lambda>(k, r). chunk_row (chunks_id_seq db + int k) r)
               (enumerate 0 (chunk_records i chunks_data ?emb))"
    using res c1 c2 q1 by (simp only:)
  have D: "distinct (map chunk_key (policy_chunks db'))"
    using res dist by (simp only:)
  from A B C D res(4) show ?thesis by blast
qed

section \<open>Ingestion\<close>

lemma add_policy_document_cases:
  assumes "add_policy_document env p db dt dn pb md = Some (db', evs, r)"
  obtains (connection) "db_fault env Connect" "db' = db" "evs = []" "r = Inl ConnectionError"
  | (input) e evs0 where "\<not> db_fault env Connect"
      "prepare_chunks env p dt pb = Some (evs0, Inl e)"
      "db' = rollback db db" "evs = evs0 @ [RolledBack]" "r = Inl e"
  | (stored) chunks_data dtext evs0 evs1 where "\<not> db_fault env Connect"
      "prepare_chunks env p dt pb = Some (evs0, Inr (chunks_data, dtext))"
      "store_document env db dn md chunks_data dtext = (db', evs1, r)" "evs = evs0 @ evs1"
  using assms unfolding add_policy_document_def
  by (auto split: if_splits option.splits prod.splits sum.splits)

lemma prepare_chunks_events:
  "prepare_chunks env p dt pb = Some (evs0, r) \<Longrightarrow> set evs0 \<subseteq> {Chunked}"
  by (auto simp: prepare_chunks_def split: if_splits option.splits)

lemma store_document_failed_events:
  assumes "store_document env db name md chunks_data dtext = (db', evs, Inl e)"
  shows "Committed \<notin> set evs"
  using assms unfolding store_document_def Let_def
  by (auto split: if_splits option.splits prod.splits sum.splits)

lemma store_document_cases:
  assumes "store_document env db name md chunks_data dtext = (db', evs, Inr (i, n))"
  obtains (hit) d where
      "find (\<lambda>d. pd_document_hash d = sha256 env dtext) (policy_documents db) = Some d"
      "db' = db" "evs = [Hashed, LookedUp]" "i = pd_id d" "n = pd_total_chunks d"
  | (fresh) "find (\<lambda>d. pd_document_hash d = sha256 env dtext) (policy_documents db) = None"
proof (cases "find (\<lambda>d. pd_document_hash d = sha256 env dtext) (policy_documents db)")
  case None
  then show ?thesis by (rule fresh)
next
  case (Some d)
  have nf: "\<not> db_fault env SelectByHash"
    using assms by (auto simp: store_document_def)
  from store_document_hit[OF nf Some, of name md chunks_data] assms
  show ?thesis by (intro hit[OF Some]) auto
qed

text \<open>The text \<open>Hello.\<close> ingested into the empty database, and once more.\<close>

lemma c1_chunks:
  "chunk_text default_processor ''Hello.'' 1 =
     Some [\<lparr>c_text = ''Hello.'', c_page_number = 1, c_chunk_index = 0,
            c_start_char = 0, c_end_char = 1500\<rparr>]"
  by (rule short_page) (auto simp: is_space_def)

lemma c1_first:
  "add_policy_document c3_env default_processor empty_db (Some ''Hello.'') (Some ''note'')
     None None =
   Some (c1_db,
         [Chunked, Hashed, LookedUp, Embedded 1, DocumentInserted, ChunksInserted 1, Committed],
         Inr (1, 1))"
proof -
  have f: "db_fault c3_env s = False" for s by (simp add: c3_env_def)
  have sha: "sha256 c3_env t = t" for t by (simp add: c3_env_def)
  have prep: "prepare_chunks c3_env default_processor (Some ''Hello.'') None =
     Some ([Chunked], Inr ([\<lparr>c_text = ''Hello.'', c_page_number = 1, c_chunk_index = 0,
            c_start_char = 0, c_end_char = 1500\<rparr>], ''Hello.''))"
    by (simp add: prepare_chunks_def truthy_def c1_chunks)
  have emb: "generate_embeddings_batch c3_env [''Hello.''] = [[1, 0]]"
    by (simp add: generate_embeddings_batch_def encode_batch_def c3_env_def batches.simps)
  have ins: "insert_document c3_env empty_db (Some ''note'') ''Hello.'' 1 [] =
     (\<lparr>policy_documents = [\<lparr>pd_id = 1, pd_document_name = ''note'',
          pd_document_hash = ''Hello.'', pd_upload_date = 0, pd_total_chunks = 1,
          pd_metadata = []\<rparr>], policy_chunks = [], documents_id_seq = 2, chunks_id_seq = 1\<rparr>, Inr 1)"
    by (simp add: insert_document_def f varchar_def empty_db_def Let_def) (simp add: c3_env_def)
  have recs: "chunk_records 1 [\<lparr>c_text = ''Hello.'', c_page_number = 1, c_chunk_index = 0,
            c_start_char = 0, c_end_char = 1500\<rparr>] [[1, 0]] =
        [(1, 0, ''Hello.'', 1, (0, 1500), [1, 0])]"
    by (simp add: chunk_records_def)
  have chk: "insert_chunks c3_env
       \<lparr>policy_documents = [\<lparr>pd_id = 1, pd_document_name = ''note'',
          pd_document_hash = ''Hello.'', pd_upload_date = 0, pd_total_chunks = 1,
          pd_metadata = []\<rparr>], policy_chunks = [], documents_id_seq = 2, chunks_id_seq = 1\<rparr>
       [(1, 0, ''Hello.'', 1, (0, 1500), [1, 0])] = (c1_db, Inr ())"
    by (simp add: insert_chunks_def f enumerate_eq_zip chunk_row_def chunk_key_def
          Let_def c1_db_def)
  have e: "policy_documents empty_db = []" by (simp add: empty_db_def)
  have store: "store_document c3_env empty_db (Some ''note'') None
       [\<lparr>c_text = ''Hello.'', c_page_number = 1, c_chunk_index = 0,
            c_start_char = 0, c_end_char = 1500\<rparr>] ''Hello.'' =
     (c1_db, [Hashed, LookedUp, Embedded 1, DocumentInserted, ChunksInserted 1, Committed],
      Inr (1, 1))"
    unfolding store_document_def
    by (simp add: sha f e emb ins recs chk Let_def)
  show ?thesis
    by (simp add: add_policy_document_def f prep store)
qed

lemma c1_second:
  "add_policy_document c3_env default_processor c1_db (Some ''Hello.'') (Some ''note'')
     None None =
   Some (c1_db, [Chunked, Hashed, LookedUp], Inr (1, 1))"
proof -
  have f: "db_fault c3_env s = False" for s by (simp add: c3_env_def)
  have sha: "sha256 c3_env t = t" for t by (simp add: c3_env_def)
  have prep: "prepare_chunks c3_env default_processor (Some ''Hello.'') None =
     Some ([Chunked], Inr ([\<lparr>c_text = ''Hello.'', c_page_number = 1, c_chunk_index = 0,
            c_start_char = 0, c_end_char = 1500\<rparr>], ''Hello.''))"
    by (simp add: prepare_chunks_def truthy_def c1_chunks)
  have "find (\<lambda>d. pd_document_hash d = sha256 c3_env ''Hello.'') (policy_documents c1_db) =
      Some \<lparr>pd_id = 1, pd_document_name = ''note'', pd_document_hash = ''Hello.'',
                pd_upload_date = 0, pd_total_chunks = 1, pd_metadata = []\<rparr>"
    by (simp add: sha c1_db_def)
  from store_document_hit[OF _ this] f
  have store: "store_document c3_env c1_db name md chunks_data ''Hello.'' =
      (c1_db, [Hashed, LookedUp], Inr (1, 1))" for name md chunks_data
    by simp
  show ?thesis
    by (simp add: add_policy_document_def f prep store)
qed

lemma find_append_last:
  "find P xs = None \<Longrightarrow> P y \<Longrightarrow> find P (xs @ [y]) = Some y"
  by (induction xs) (auto split: if_splits)

lemma prepare_chunks_same_world:
  assumes "pdf_reader env2 = pdf_reader env" "clean_text env2 = clean_text env"
  shows "prepare_chunks env2 p dt pb = prepare_chunks env p dt pb"
proof -
  have "extract_text_from_pdf env2 b = extract_text_from_pdf env b" for b
    using assms by (simp add: extract_text_from_pdf_def split: option.splits)
  then have "process_pdf_bytes env2 p b = process_pdf_bytes env p b" for b
    by (simp add: process_pdf_bytes_def)
  then show ?thesis by (simp add: prepare_chunks_def)
qed

lemma prepare_chunks_chunked:
  "prepare_chunks env p dt pb = Some (evs0, Inr x) \<Longrightarrow> evs0 = [Chunked]"
  by (auto simp: prepare_chunks_def split: if_splits option.splits)

text \<open>
  C1, as amended. After an ingestion that returned \<open>(i, n)\<close>, ingesting the same input
  again (whatever the name and the metadata, while the connection and the lookup work)
  returns \<open>(i, n)\<close> again and leaves the database as it is: no row is written, no
  embedding is computed. The chunks are computed again, though, before the hash is: the
  call does \<open>Chunked\<close>, \<open>Hashed\<close>, \<open>LookedUp\<close>, in that order, and drops the chunks.
\<close>

theorem second_ingestion_reads_only:
  assumes first: "add_policy_document env p db dt dn pb md = Some (db1, evs1, Inr (i, n))"
    and world: "sha256 env2 = sha256 env" "pdf_reader env2 = pdf_reader env"
      "clean_text env2 = clean_text env"
    and up: "\<not> db_fault env2 Connect" "\<not> db_fault env2 SelectByHash"
  shows "add_policy_document env2 p db1 dt dn2 pb md2 =
         Some (db1, [Chunked, Hashed, LookedUp], Inr (i, n))"
  using first
proof (cases rule: add_policy_document_cases)
  case (stored chunks_data dtext evs0 evs)
  have prep: "prepare_chunks env2 p dt pb = Some ([Chunked], Inr (chunks_data, dtext))"
    using stored(2) prepare_chunks_chunked[OF stored(2)]
    by (simp add: prepare_chunks_same_world[OF world(2,3)])
  have "\<exists>d. find (\<lambda>d. pd_document_hash d = sha256 env2 dtext) (policy_documents db1) = Some d
          \<and> pd_id d = i \<and> pd_total_chunks d = n"
    using stored(3)
  proof (cases rule: store_document_cases)
    case (hit d)
    then show ?thesis by (auto simp: world(1))
  next
    case fresh
    from store_document_inserted[OF stored(3) fresh]
    obtain stored_name where docs: "policy_documents db1 = policy_documents db @
             [\<lparr>pd_id = i, pd_document_name = stored_name, pd_document_hash = sha256 env dtext,
               pd_upload_date = now env, pd_total_chunks = n,
               pd_metadata = (case md of None \<Rightarrow> [] | Some m \<Rightarrow> m)\<rparr>]" by blast
    show ?thesis
      unfolding docs world(1) by (subst find_append_last[OF fresh]) simp_all
  qed
  then obtain d where d: "find (\<lambda>d. pd_document_hash d = sha256 env2 dtext)
      (policy_documents db1) = Some d" "pd_id d = i" "pd_total_chunks d = n" by blast
  from store_document_hit[OF up(2) d(1), of dn2 md2 chunks_data] d(2,3)
  have "store_document env2 db1 dn2 md2 chunks_data dtext = (db1, [Hashed, LookedUp], Inr (i, n))"
    by simp
  with prep up(1) show ?thesis by (simp add: add_policy_document_def)
qed simp_all

text \<open>The text \<open>Hello.\<close> ingested a second time, under another name.\<close>

theorem second_ingestion_reads_only_witness:
  "add_policy_document c3_env default_processor c1_db (Some ''Hello.'') (Some ''renamed'')
     None (Some [(''claim'', ''42'')]) =
   Some (c1_db, [Chunked, Hashed, LookedUp], Inr (1, 1))"
  using second_ingestion_reads_only[OF c1_first, of c3_env "Some ''renamed''"
      "Some [(''claim'', ''42'')]"]
  by (simp add: c3_env_def)

text \<open>C1 as stated says that on a hash hit no chunks are computed, hashing coming
  first. The second ingestion of \<open>Hello.\<close> chunks the text and only then hashes it.\<close>

theorem second_ingestion_chunks_before_hashing:
  "add_policy_document c3_env default_processor empty_db (Some ''Hello.'') (Some ''note'')
     None None =
   Some (c1_db,
         [Chunked, Hashed, LookedUp, Embedded 1, DocumentInserted, ChunksInserted 1, Committed],
         Inr (1, 1))
   \<and> add_policy_document c3_env default_processor c1_db (Some ''Hello.'') (Some ''note'')
     None None =
   Some (c1_db, [Chunked, Hashed, LookedUp], Inr (1, 1))"
  using c1_first c1_second by simp

lemma insert_document_error:
  assumes "insert_document env db name h n md = (db1, Inl e)"
    and "find (\<lambda>d. pd_document_hash d = h) (policy_documents db) = None"
  shows "case e of
           OperationalError s \<Rightarrow> s = InsertDocument \<and> db_fault env InsertDocument
         | NotNullViolation \<Rightarrow> \<not> db_fault env InsertDocument \<and> name = None
         | StringDataRightTruncation \<Rightarrow>
             \<not> db_fault env InsertDocument \<and> (\<exists>nm. name = Some nm \<and> 255 < length nm)
         | _ \<Rightarrow> False"
  using assms
  by (auto simp: insert_document_def Let_def varchar_def find_None_iff
      split: if_splits option.splits sum.splits)

lemma insert_document_no_fault:
  assumes "insert_document env db name h n md = (db1, Inr i)"
  shows "\<not> db_fault env InsertDocument \<and> (\<exists>nm. name = Some nm \<and> varchar 255 nm = Inr (pd_document_name (last (policy_documents db1))))"
  using assms
  by (auto simp: insert_document_def Let_def split: if_splits option.splits sum.splits)

lemma insert_chunks_error:
  assumes "insert_chunks env db records = (db2, Inl e)"
  shows "(e = OperationalError InsertChunks \<and> db_fault env InsertChunks)
       \<or> (e = UniqueViolation \<and> \<not> db_fault env InsertChunks \<and>
           \<not> distinct (map chunk_key (policy_chunks db @
                map (\<lambda>(k, r). chunk_row (chunks_id_seq db + int k) r) (enumerate 0 records))))"
proof (cases "db_fault env InsertChunks")
  case True
  with assms show ?thesis by (simp add: insert_chunks_def)
next
  case False
  let ?rows = "map (\<lambda>(k, r). chunk_row (chunks_id_seq db + int k) r) (enumerate 0 records)"
  have eq: "insert_chunks env db records =
        (if distinct (map chunk_key (policy_chunks db @ ?rows))
         then (db\<lparr>chunks_id_seq := chunks_id_seq db + int (length records)\<rparr>
                 \<lparr>policy_chunks := policy_chunks db @ ?rows\<rparr>, Inr ())
         else (db\<lparr>chunks_id_seq := chunks_id_seq db + int (length records)\<rparr>,
               Inl UniqueViolation))"
    using False by (simp only: insert_chunks_def Let_def if_False)
  show ?thesis
  proof (cases "distinct (map chunk_key (policy_chunks db @ ?rows))")
    case True
    with eq assms show ?thesis by (simp only: if_True prod.inject sum.distinct simp_thms)
  next
    case nd: False
    with eq assms have "e = UniqueViolation" by (simp only: if_False prod.inject sum.inject)
    with nd False show ?thesis by (simp only:) blast
  qed
qed

lemma insert_chunks_no_fault:
  assumes "insert_chunks env db records = (db2, Inr u)"
  shows "\<not> db_fault env InsertChunks"
  using assms by (auto simp: insert_chunks_def Let_def split: if_splits)

lemma chunk_rows_keys:
  assumes len: "length embeddings = length chunks_data"
  shows "map chunk_key (map (\<lambda>(k, r). chunk_row (first_id + int k) r)
           (enumerate 0 (chunk_records i chunks_data embeddings))) =
         map (\<lambda>c. (i, c_chunk_index c)) chunks_data"
proof (rule nth_equalityI)
  show "length (map chunk_key (map (\<lambda>(k, r). chunk_row (first_id + int k) r)
           (enumerate 0 (chunk_records i chunks_data embeddings)))) =
        length (map (\<lambda>c. (i, c_chunk_index c)) chunks_data)"
    using len by (simp add: chunk_records_def)
next
  fix k
  assume "k < length (map chunk_key (map (\<lambda>(k, r). chunk_row (first_id + int k) r)
           (enumerate 0 (chunk_records i chunks_data embeddings))))"
  then have k: "k < length chunks_data" using len by (simp add: chunk_records_def)
  then have k2: "k < length (map (\<lambda>(k, r). chunk_row (first_id + int k) r)
           (enumerate 0 (chunk_records i chunks_data embeddings)))"
    using len by (simp add: chunk_records_def)
  show "map chunk_key (map (\<lambda>(k, r). chunk_row (first_id + int k) r)
           (enumerate 0 (chunk_records i chunks_data embeddings))) ! k =
        map (\<lambda>c. (i, c_chunk_index c)) chunks_data ! k"
    using k k2 by (simp only: nth_map chunk_rows_nth[OF len k] length_map) (simp add: chunk_key_def)
qed


lemma store_document_error:
  assumes s: "store_document env db name md chunks_data dtext = (db', evs, Inl e)"
  shows "evs \<noteq> [] \<and> last evs = RolledBack \<and>
    (db_fault env SelectByHash \<and> e = OperationalError SelectByHash
     \<or> \<not> db_fault env SelectByHash
       \<and> find (\<lambda>d. pd_document_hash d = sha256 env dtext) (policy_documents db) = None
       \<and> (case e of
             OperationalError st \<Rightarrow>
               st \<in> {InsertDocument, InsertChunks, Commit} \<and> db_fault env st
           | NotNullViolation \<Rightarrow> name = None
           | StringDataRightTruncation \<Rightarrow> (\<exists>nm. name = Some nm \<and> 255 < length nm)
           | UniqueViolation \<Rightarrow>
               \<not> distinct (map chunk_key (policy_chunks db) @
                    map (\<lambda>c. (documents_id_seq db, c_chunk_index c)) chunks_data)
           | _ \<Rightarrow> False))"
proof (cases "db_fault env SelectByHash")
  case True
  with s show ?thesis by (auto simp: store_document_def)
next
  case nf: False
  let ?h = "sha256 env dtext"
  let ?md = "case md of None \<Rightarrow> [] | Some m \<Rightarrow> m"
  let ?emb = "generate_embeddings_batch env (map c_text chunks_data)"
  have fresh: "find (\<lambda>d. pd_document_hash d = ?h) (policy_documents db) = None"
    using s nf by (cases "find (\<lambda>d. pd_document_hash d = ?h) (policy_documents db)")
      (auto simp: store_document_def)
  have len: "length ?emb = length chunks_data"
    by (simp add: length_generate_embeddings_batch)
  obtain db1 r1 where i1: "insert_document env db name ?h (int (length chunks_data)) ?md = (db1, r1)"
    by (cases "insert_document env db name ?h (int (length chunks_data)) ?md") auto
  have "evs \<noteq> [] \<and> last evs = RolledBack \<and> (case e of
             OperationalError st \<Rightarrow>
               st \<in> {InsertDocument, InsertChunks, Commit} \<and> db_fault env st
           | NotNullViolation \<Rightarrow> name = None
           | StringDataRightTruncation \<Rightarrow> (\<exists>nm. name = Some nm \<and> 255 < length nm)
           | UniqueViolation \<Rightarrow>
               \<not> distinct (map chunk_key (policy_chunks db) @
                    map (\<lambda>c. (documents_id_seq db, c_chunk_index c)) chunks_data)
           | _ \<Rightarrow> False)"
  proof (cases r1)
    case (Inl e1)
    with s nf fresh i1 have e: "e = e1" and evs: "evs = [Hashed, LookedUp, Embedded (length chunks_data), RolledBack]"
      by (auto simp: store_document_def Let_def)
    from insert_document_error[OF i1[unfolded Inl] fresh] e evs
    show ?thesis by (cases e1) auto
  next
    case (Inr j)
    note d1 = insert_document_done[OF i1[unfolded Inr]]
    from d1 have j: "j = documents_id_seq db" and c1: "policy_chunks db1 = policy_chunks db"
      and q1: "chunks_id_seq db1 = chunks_id_seq db" by simp_all
    obtain db2 r2 where i2: "insert_chunks env db1 (chunk_records j chunks_data ?emb) = (db2, r2)"
      by (cases "insert_chunks env db1 (chunk_records j chunks_data ?emb)") auto
    show ?thesis
    proof (cases r2)
      case (Inl e2)
      with s nf fresh i1 Inr i2 have e: "e = e2"
        and evs: "evs = [Hashed, LookedUp, Embedded (length chunks_data), DocumentInserted, RolledBack]"
        by (auto simp: store_document_def Let_def)
      from insert_chunks_error[OF i2[unfolded Inl]]
      show ?thesis
      proof
        assume "e2 = OperationalError InsertChunks \<and> db_fault env InsertChunks"
        with e evs show ?thesis by simp
      next
        assume a: "e2 = UniqueViolation \<and> \<not> db_fault env InsertChunks \<and>
           \<not> distinct (map chunk_key (policy_chunks db1 @
                map (\<lambda>(k, r). chunk_row (chunks_id_seq db1 + int k) r)
                  (enumerate 0 (chunk_records j chunks_data ?emb))))"
        then have "\<not> distinct (map chunk_key (policy_chunks db1 @
                map (\<lambda>(k, r). chunk_row (chunks_id_seq db1 + int k) r)
                  (enumerate 0 (chunk_records j chunks_data ?emb))))"
          by blast
        then have "\<not> distinct (map chunk_key (policy_chunks db) @
              map chunk_key (map (\<lambda>(k, r). chunk_row (chunks_id_seq db + int k) r)
                  (enumerate 0 (chunk_records j chunks_data ?emb))))"
          unfolding c1 q1 map_append .
        then have "\<not> distinct (map chunk_key (policy_chunks db) @
                    map (\<lambda>c. (documents_id_seq db, c_chunk_index c)) chunks_data)"
          unfolding chunk_rows_keys[OF len] j .
        with a e evs show ?thesis by simp
      qed
    next
      case r2: (Inr u)
      with s nf fresh i1 Inr i2 have "db_fault env Commit \<and> e = OperationalError Commit
         \<and> evs = [Hashed, LookedUp, Embedded (length chunks_data), DocumentInserted,
                  ChunksInserted (length chunks_data), RolledBack]"
        by (auto simp: store_document_def Let_def split: if_splits)
      then show ?thesis by simp
    qed
  qed
  with nf fresh show ?thesis by blast
qed

lemma store_document_steps:
  assumes s: "store_document env db name md chunks_data dtext = (db', evs, Inr (i, n))"
  shows "\<not> db_fault env SelectByHash"
    and "find (\<lambda>d. pd_document_hash d = sha256 env dtext) (policy_documents db) = None \<Longrightarrow>
         \<not> db_fault env InsertDocument \<and> \<not> db_fault env InsertChunks \<and> \<not> db_fault env Commit"
proof -
  show nf: "\<not> db_fault env SelectByHash"
    using s by (auto simp: store_document_def)
  assume fresh: "find (\<lambda>d. pd_document_hash d = sha256 env dtext) (policy_documents db) = None"
  let ?h = "sha256 env dtext"
  let ?md = "case md of None \<Rightarrow> [] | Some m \<Rightarrow> m"
  let ?emb = "generate_embeddings_batch env (map c_text chunks_data)"
  obtain db1 r1 where i1: "insert_document env db name ?h (int (length chunks_data)) ?md = (db1, r1)"
    by (cases "insert_document env db name ?h (int (length chunks_data)) ?md") auto
  from s fresh i1 obtain j where r1: "r1 = Inr j"
    by (cases r1) (auto simp: store_document_def Let_def split: if_splits)
  obtain db2 r2 where i2: "insert_chunks env db1 (chunk_records j chunks_data ?emb) = (db2, r2)"
    by (cases "insert_chunks env db1 (chunk_records j chunks_data ?emb)") auto
  from s fresh i1 r1 i2 obtain u where r2: "r2 = Inr u"
    by (cases r2) (auto simp: store_document_def Let_def split: if_splits)
  from s fresh i1 r1 i2 r2 have "\<not> db_fault env Commit"
    by (auto simp: store_document_def Let_def split: if_splits)
  with insert_document_no_fault[OF i1[unfolded r1]] insert_chunks_no_fault[OF i2[unfolded r2]]
  show "\<not> db_fault env InsertDocument \<and> \<not> db_fault env InsertChunks \<and> \<not> db_fault env Commit"
    by simp
qed


lemma prepare_chunks_error:
  assumes "prepare_chunks env p dt pb = Some (evs0, Inl e)"
  shows "(e = NoInput \<and> \<not> truthy pb \<and> \<not> truthy dt)
       \<or> (e = ExtractionFailed \<and> truthy pb \<and> \<not> truthy dt
           \<and> process_pdf_bytes env p (the pb) = Some [])"
  using assms by (auto simp: prepare_chunks_def split: if_splits option.splits)

lemma c3_prepare:
  "prepare_chunks c3_env default_processor None (Some ''%PDF'') =
     Some ([Chunked], Inr ([\<lparr>c_text = ''Hello.'', c_page_number = 1, c_chunk_index = 0,
             c_start_char = 0, c_end_char = 1500\<rparr>,
           \<lparr>c_text = ''World.'', c_page_number = 2, c_chunk_index = 0,
             c_start_char = 0, c_end_char = 1500\<rparr>], ''Hello. World.''))"
  by (simp add: prepare_chunks_def truthy_def c3_chunks)

lemma c1_prepare:
  "prepare_chunks c3_env default_processor (Some ''Hello.'') None =
     Some ([Chunked], Inr ([\<lparr>c_text = ''Hello.'', c_page_number = 1, c_chunk_index = 0,
            c_start_char = 0, c_end_char = 1500\<rparr>], ''Hello.''))"
  by (simp add: prepare_chunks_def truthy_def c1_chunks)

text \<open>
  C2. Ingestion is atomic. Whenever \<open>add_policy_document\<close> returns, it has done one of
  three things.
  \<^item> It raised one error. Then both tables are as before and nothing was committed. The
    error has its cause: the connection failed (nothing was done at all); or, with the
    rollback as the last action, there was no input, or nothing could be extracted from
    the PDF, or the lookup failed, or, the hash being new, one of the two inserts or the
    commit failed, the name was missing or too long, or the chunk rows would have broken
    \<open>UNIQUE(document_id, chunk_index)\<close>.
  \<^item> It found the hash of the text and returned the stored pair, writing nothing.
  \<^item> It committed: no step failed, exactly one document row was added, with the returned
    id, the hash and the chunk count, and exactly one chunk row per chunk, in order, each
    with that document id, its chunk's index and text and its embedding.

  So a call that succeeds has inserted everything, a call in which a step fails raises,
  and a call that raises has inserted nothing.
\<close>

theorem ingestion_is_atomic:
  assumes a: "add_policy_document env p db dt dn pb md = Some (db', evs, r)"
  shows "case r of
     Inl e \<Rightarrow>
       policy_documents db' = policy_documents db \<and> policy_chunks db' = policy_chunks db
       \<and> Committed \<notin> set evs
       \<and> (if db_fault env Connect then e = ConnectionError \<and> evs = []
          else evs \<noteq> [] \<and> last evs = RolledBack \<and>
            ((e = NoInput \<and> \<not> truthy pb \<and> \<not> truthy dt)
             \<or> (e = ExtractionFailed \<and> truthy pb \<and> \<not> truthy dt
                 \<and> process_pdf_bytes env p (the pb) = Some [])
             \<or> (\<exists>chunks_data dtext.
                   prepare_chunks env p dt pb = Some ([Chunked], Inr (chunks_data, dtext)) \<and>
                   (db_fault env SelectByHash \<and> e = OperationalError SelectByHash
                    \<or> \<not> db_fault env SelectByHash
                      \<and> find (\<lambda>d. pd_document_hash d = sha256 env dtext)
                            (policy_documents db) = None
                      \<and> (case e of
                            OperationalError st \<Rightarrow>
                              st \<in> {InsertDocument, InsertChunks, Commit} \<and> db_fault env st
                          | NotNullViolation \<Rightarrow> dn = None
                          | StringDataRightTruncation \<Rightarrow>
                              (\<exists>nm. dn = Some nm \<and> 255 < length nm)
                          | UniqueViolation \<Rightarrow>
                              \<not> distinct (map chunk_key (policy_chunks db) @
                                   map (\<lambda>c. (documents_id_seq db, c_chunk_index c)) chunks_data)
                          | _ \<Rightarrow> False)))))
   | Inr (i, n) \<Rightarrow>
       \<not> db_fault env Connect \<and> \<not> db_fault env SelectByHash \<and>
       (\<exists>chunks_data dtext.
          prepare_chunks env p dt pb = Some ([Chunked], Inr (chunks_data, dtext)) \<and>
          (case find (\<lambda>d. pd_document_hash d = sha256 env dtext) (policy_documents db) of
             Some d \<Rightarrow>
               i = pd_id d \<and> n = pd_total_chunks d \<and> db' = db
               \<and> evs = [Chunked, Hashed, LookedUp]
           | None \<Rightarrow>
               \<not> db_fault env InsertDocument \<and> \<not> db_fault env InsertChunks
               \<and> \<not> db_fault env Commit
               \<and> i = documents_id_seq db \<and> n = int (length chunks_data)
               \<and> (\<exists>doc rows.
                     policy_documents db' = policy_documents db @ [doc]
                     \<and> pd_id doc = i \<and> pd_document_hash doc = sha256 env dtext
                     \<and> pd_total_chunks doc = n
                     \<and> policy_chunks db' = policy_chunks db @ rows
                     \<and> map pc_document_id rows = map (\<lambda>_. i) chunks_data
                     \<and> map pc_chunk_index rows = map c_chunk_index chunks_data
                     \<and> map pc_chunk_text rows = map c_text chunks_data
                     \<and> map pc_embedding rows =
                         generate_embeddings_batch env (map c_text chunks_data))
               \<and> evs = [Chunked, Hashed, LookedUp, Embedded (length chunks_data),
                        DocumentInserted, ChunksInserted (length chunks_data), Committed]))"
  using a
proof (cases rule: add_policy_document_cases)
  case connection
  then show ?thesis by simp
next
  case (input e evs0)
  from prepare_chunks_events[OF input(2)] have c0: "Committed \<notin> set evs0" by auto
  from prepare_chunks_error[OF input(2)] input c0 show ?thesis by auto
next
  case (stored chunks_data dtext evs0 evs1)
  note ch = prepare_chunks_chunked[OF stored(2)]
  have prep: "prepare_chunks env p dt pb = Some ([Chunked], Inr (chunks_data, dtext))"
    using stored(2) ch by simp
  show ?thesis
  proof (cases r)
    case (Inl e)
    note s = stored(3)[unfolded Inl]
    from store_document_failed[OF s] store_document_failed_events[OF s]
    have u: "policy_documents db' = policy_documents db" "policy_chunks db' = policy_chunks db"
      "Committed \<notin> set evs" using stored(4) ch by simp_all
    from store_document_error[OF s]
    have e1: "evs1 \<noteq> []" "last evs1 = RolledBack" by simp_all
    then have e2: "evs \<noteq> []" "last evs = RolledBack" using stored(4) by simp_all
    from store_document_error[OF s]
    have cause: "db_fault env SelectByHash \<and> e = OperationalError SelectByHash
                    \<or> \<not> db_fault env SelectByHash
                      \<and> find (\<lambda>d. pd_document_hash d = sha256 env dtext)
                            (policy_documents db) = None
                      \<and> (case e of
                            OperationalError st \<Rightarrow>
                              st \<in> {InsertDocument, InsertChunks, Commit} \<and> db_fault env st
                          | NotNullViolation \<Rightarrow> dn = None
                          | StringDataRightTruncation \<Rightarrow>
                              (\<exists>nm. dn = Some nm \<and> 255 < length nm)
                          | UniqueViolation \<Rightarrow>
                              \<not> distinct (map chunk_key (policy_chunks db) @
                                   map (\<lambda>c. (documents_id_seq db, c_chunk_index c)) chunks_data)
                          | _ \<Rightarrow> False)" by blast
    from prep cause have "\<exists>chunks_data dtext.
                   prepare_chunks env p dt pb = Some ([Chunked], Inr (chunks_data, dtext)) \<and>
                   (db_fault env SelectByHash \<and> e = OperationalError SelectByHash
                    \<or> \<not> db_fault env SelectByHash
                      \<and> find (\<lambda>d. pd_document_hash d = sha256 env dtext)
                            (policy_documents db) = None
                      \<and> (case e of
                            OperationalError st \<Rightarrow>
                              st \<in> {InsertDocument, InsertChunks, Commit} \<and> db_fault env st
                          | NotNullViolation \<Rightarrow> dn = None
                          | StringDataRightTruncation \<Rightarrow>
                              (\<exists>nm. dn = Some nm \<and> 255 < length nm)
                          | UniqueViolation \<Rightarrow>
                              \<not> distinct (map chunk_key (policy_chunks db) @
                                   map (\<lambda>c. (documents_id_seq db, c_chunk_index c)) chunks_data)
                          | _ \<Rightarrow> False))" by blast
    with u e2 stored(1) show ?thesis by (simp add: Inl)
  next
    case (Inr pair)
    obtain i n where pair: "pair = (i, n)" by (cases pair)
    from stored(3) have s: "store_document env db dn md chunks_data dtext = (db', evs1, Inr (i, n))"
      by (simp add: Inr pair)
    note nf = store_document_steps(1)[OF s]
    have "case find (\<lambda>d. pd_document_hash d = sha256 env dtext) (policy_documents db) of
             Some d \<Rightarrow>
               i = pd_id d \<and> n = pd_total_chunks d \<and> db' = db
               \<and> evs = [Chunked, Hashed, LookedUp]
           | None \<Rightarrow>
               \<not> db_fault env InsertDocument \<and> \<not> db_fault env InsertChunks
               \<and> \<not> db_fault env Commit
               \<and> i = documents_id_seq db \<and> n = int (length chunks_data)
               \<and> (\<exists>doc rows.
                     policy_documents db' = policy_documents db @ [doc]
                     \<and> pd_id doc = i \<and> pd_document_hash doc = sha256 env dtext
                     \<and> pd_total_chunks doc = n
                     \<and> policy_chunks db' = policy_chunks db @ rows
                     \<and> map pc_document_id rows = map (\<lambda>_. i) chunks_data
                     \<and> map pc_chunk_index rows = map c_chunk_index chunks_data
                     \<and> map pc_chunk_text rows = map c_text chunks_data
                     \<and> map pc_embedding rows =
                         generate_embeddings_batch env (map c_text chunks_data))
               \<and> evs = [Chunked, Hashed, LookedUp, Embedded (length chunks_data),
                        DocumentInserted, ChunksInserted (length chunks_data), Committed]"
      using s
    proof (cases rule: store_document_cases)
      case (hit d)
      with stored(4) ch show ?thesis by simp
    next
      case fresh
      let ?emb = "generate_embeddings_batch env (map c_text chunks_data)"
      let ?rows = "map (\<lambda>(k, r). chunk_row (chunks_id_seq db + int k) r)
               (enumerate 0 (chunk_records i chunks_data ?emb))"
      note ins = store_document_inserted[OF s fresh]
      note steps = store_document_steps(2)[OF s fresh]
      have len: "length ?emb = length chunks_data"
        by (simp add: length_generate_embeddings_batch)
      from ins obtain stored_name where docs: "policy_documents db' = policy_documents db @
             [\<lparr>pd_id = i, pd_document_name = stored_name, pd_document_hash = sha256 env dtext,
               pd_upload_date = now env, pd_total_chunks = n,
               pd_metadata = (case md of None \<Rightarrow> [] | Some m \<Rightarrow> m)\<rparr>]" by blast
      from ins have rows: "policy_chunks db' = policy_chunks db @ ?rows" by blast
      from ins have n: "n = int (length chunks_data)" and i: "i = documents_id_seq db" by blast+
      from ins have ev: "evs1 = [Hashed, LookedUp, Embedded (length chunks_data), DocumentInserted,
                ChunksInserted (length chunks_data), Committed]" by blast
      note props = chunk_rows_props[OF len, of "chunks_id_seq db" i]
      have "\<exists>doc rows.
                     policy_documents db' = policy_documents db @ [doc]
                     \<and> pd_id doc = i \<and> pd_document_hash doc = sha256 env dtext
                     \<and> pd_total_chunks doc = n
                     \<and> policy_chunks db' = policy_chunks db @ rows
                     \<and> map pc_document_id rows = map (\<lambda>_. i) chunks_data
                     \<and> map pc_chunk_index rows = map c_chunk_index chunks_data
                     \<and> map pc_chunk_text rows = map c_text chunks_data
                     \<and> map pc_embedding rows =
                         generate_embeddings_batch env (map c_text chunks_data)"
        using docs rows props(2,3,5,6)
        by (intro exI[of _ "\<lparr>pd_id = i, pd_document_name = stored_name,
               pd_document_hash = sha256 env dtext,
               pd_upload_date = now env, pd_total_chunks = n,
               pd_metadata = (case md of None \<Rightarrow> [] | Some m \<Rightarrow> m)\<rparr>"] exI[of _ ?rows])
           (simp only: simp_thms policy_document.simps)
      with steps n i ev stored(4) ch fresh show ?thesis by simp
    qed
    with prep nf stored(1) show ?thesis by (auto simp: Inr pair)
  qed
qed


lemma c3_env_steps:
  "db_fault c3_env st = False" "sha256 c3_env t = t"
  by (simp_all add: c3_env_def)

text \<open>The two-page PDF, whose document row was already inserted when the chunk insert
  was refused, and the text \<open>Hello.\<close>, which is stored.\<close>

theorem ingestion_is_atomic_witness:
  "(policy_documents \<lparr>policy_documents = [], policy_chunks = [], documents_id_seq = 2,
       chunks_id_seq = 3\<rparr> = policy_documents empty_db
    \<and> policy_chunks \<lparr>policy_documents = [], policy_chunks = [], documents_id_seq = 2,
       chunks_id_seq = 3\<rparr> = policy_chunks empty_db
    \<and> last [Chunked, Hashed, LookedUp, Embedded 2, DocumentInserted, RolledBack] = RolledBack
    \<and> \<not> distinct (map chunk_key (policy_chunks empty_db) @
         map (\<lambda>c. (documents_id_seq empty_db, c_chunk_index c))
           [\<lparr>c_text = ''Hello.'', c_page_number = 1, c_chunk_index = 0,
              c_start_char = 0, c_end_char = 1500\<rparr>,
            \<lparr>c_text = ''World.'', c_page_number = 2, c_chunk_index = 0,
              c_start_char = 0, c_end_char = 1500\<rparr>]))
   \<and> (\<exists>doc rows.
         policy_documents c1_db = policy_documents empty_db @ [doc]
         \<and> pd_id doc = 1 \<and> pd_document_hash doc = ''Hello.'' \<and> pd_total_chunks doc = 1
         \<and> policy_chunks c1_db = policy_chunks empty_db @ rows
         \<and> map pc_document_id rows = [1]
         \<and> map pc_chunk_index rows = [0]
         \<and> map pc_chunk_text rows = [''Hello.''])"
  using ingestion_is_atomic[OF c3_ingest] ingestion_is_atomic[OF c1_first]
  by (simp add: c3_prepare c1_prepare c3_env_steps empty_db_def c1_db_def)




lemma rfind_ge: "- 1 \<le> rfind text c s e"
  by (simp add: rfind_def Let_def)



section \<open>What the normalisation leaves\<close>












section \<open>Windows\<close>






section \<open>The windows of a returning loop\<close>



section \<open>A text of three windows\<close>








section \<open>Page numbers\<close>

lemma chunk_pages_origin:
  "chunk_pages p pts = Some r \<Longrightarrow> c \<in> set r \<Longrightarrow>
     \<exists>t pg chunks. (t, pg) \<in> set pts \<and> chunk_text p t pg = Some chunks \<and> c \<in> set chunks"
proof (induction p pts arbitrary: r rule: chunk_pages.induct)
  case (1 p)
  then show ?case by simp
next
  case (2 p t pg rest)
  from 2(2) obtain chunks later where a: "chunk_text p t pg = Some chunks"
    "chunk_pages p rest = Some later" "r = chunks @ later"
    by (auto split: option.splits)
  from 2(3) a(3) consider "c \<in> set chunks" | "c \<in> set later" by auto
  then show ?case
  proof cases
    case 1
    with a(1) show ?thesis by auto
  next
    case 2
    from "2.IH"[OF a(1) a(2) 2] show ?thesis by auto
  qed
qed

lemma extract_text_from_pdf_pages:
  assumes "(t, pg) \<in> set (extract_text_from_pdf env b)"
  shows "\<exists>pages. pdf_reader env b = Some pages \<and> 1 \<le> pg \<and> pg \<le> int (length pages)
           \<and> strip (pages ! (nat pg - 1)) \<noteq> [] \<and> t = clean_text env (pages ! (nat pg - 1))"
proof (cases "pdf_reader env b")
  case None
  with assms show ?thesis by (simp add: extract_text_from_pdf_def)
next
  case (Some pages)
  with assms obtain k where k: "k < length pages" "strip (pages ! k) \<noteq> []"
    "t = clean_text env (pages ! k)" "pg = int k + 1"
    by (auto simp: extract_text_from_pdf_def in_set_enumerate_eq)
  then have "nat pg - 1 = k" by simp
  with k Some show ?thesis by auto
qed

lemma prepare_chunks_pages:
  assumes "prepare_chunks env p dt pb = Some (evs0, Inr (chunks_data, dtext))"
  shows "if truthy pb \<and> \<not> truthy dt
       then \<exists>pages. pdf_reader env (the pb) = Some pages \<and>
              (\<forall>c \<in> set chunks_data.
                  1 \<le> c_page_number c \<and> c_page_number c \<le> int (length pages)
                \<and> strip (pages ! (nat (c_page_number c) - 1)) \<noteq> []
                \<and> (\<exists>chunks. chunk_text p (clean_text env (pages ! (nat (c_page_number c) - 1)))
                               (c_page_number c) = Some chunks \<and> c \<in> set chunks))
       else chunk_text p (the dt) 1 = Some chunks_data
            \<and> (\<forall>c \<in> set chunks_data. c_page_number c = 1)"
proof (cases "truthy pb \<and> \<not> truthy dt")
  case False
  with assms have ct: "chunk_text p (the dt) 1 = Some chunks_data"
    by (auto simp: prepare_chunks_def split: if_splits option.splits)
  from chunk_text_result(2)[OF ct] ct False show ?thesis by auto
next
  case True
  with assms have pp: "process_pdf_bytes env p (the pb) = Some chunks_data" and ne: "chunks_data \<noteq> []"
    by (auto simp: prepare_chunks_def split: if_splits option.splits)
  then have cp: "chunk_pages p (extract_text_from_pdf env (the pb)) = Some chunks_data"
    by (auto simp: process_pdf_bytes_def Let_def split: if_splits)
  have each: "\<exists>pages. pdf_reader env (the pb) = Some pages \<and>
      1 \<le> c_page_number c \<and> c_page_number c \<le> int (length pages)
      \<and> strip (pages ! (nat (c_page_number c) - 1)) \<noteq> []
      \<and> (\<exists>chunks. chunk_text p (clean_text env (pages ! (nat (c_page_number c) - 1)))
                               (c_page_number c) = Some chunks \<and> c \<in> set chunks)"
    if c: "c \<in> set chunks_data" for c
  proof -
    from chunk_pages_origin[OF cp c] obtain t pg chunks where o:
      "(t, pg) \<in> set (extract_text_from_pdf env (the pb))" "chunk_text p t pg = Some chunks"
      "c \<in> set chunks" by blast
    from chunk_text_result(2)[OF o(2)] o(3) have pg: "c_page_number c = pg" by simp
    from extract_text_from_pdf_pages[OF o(1)] obtain pages where
      "pdf_reader env (the pb) = Some pages" "1 \<le> pg" "pg \<le> int (length pages)"
      "strip (pages ! (nat pg - 1)) \<noteq> []" "t = clean_text env (pages ! (nat pg - 1))" by blast
    with o(2,3) pg show ?thesis by auto
  qed
  from ne obtain c0 where "c0 \<in> set chunks_data" by (cases chunks_data) auto
  from each[OF this] obtain pages where pages: "pdf_reader env (the pb) = Some pages" by blast
  with each have "\<forall>c \<in> set chunks_data.
                  1 \<le> c_page_number c \<and> c_page_number c \<le> int (length pages)
                \<and> strip (pages ! (nat (c_page_number c) - 1)) \<noteq> []
                \<and> (\<exists>chunks. chunk_text p (clean_text env (pages ! (nat (c_page_number c) - 1)))
                               (c_page_number c) = Some chunks \<and> c \<in> set chunks)"
    by fastforce
  with pages True show ?thesis by simp
qed


lemma c10_prepare:
  "prepare_chunks c10_env default_processor None (Some ''%PDF'') =
     Some ([Chunked], Inr ([\<lparr>c_text = ''World.'', c_page_number = 2, c_chunk_index = 0,
            c_start_char = 0, c_end_char = 1500\<rparr>], ''World.''))"
proof -
  have pages: "extract_text_from_pdf c10_env ''%PDF'' = [(''World.'', 2)]"
    by (simp add: extract_text_from_pdf_def c10_env_def enumerate_eq_zip strip_def is_space_def
        upt_conv_Cons)
  have "chunk_text default_processor ''World.'' 2 =
         Some [\<lparr>c_text = ''World.'', c_page_number = 2, c_chunk_index = 0,
                c_start_char = 0, c_end_char = 1500\<rparr>]"
    by (rule short_page) (auto simp: is_space_def)
  then have "process_pdf_bytes c10_env default_processor ''%PDF'' =
         Some [\<lparr>c_text = ''World.'', c_page_number = 2, c_chunk_index = 0,
                c_start_char = 0, c_end_char = 1500\<rparr>]"
    by (simp add: process_pdf_bytes_def pages)
  then show ?thesis by (simp add: prepare_chunks_def truthy_def)
qed

lemma c10_ingest:
  "add_policy_document c10_env default_processor empty_db None (Some ''scan.pdf'')
     (Some ''%PDF'') None =
   Some (c10_db,
         [Chunked, Hashed, LookedUp, Embedded 1, DocumentInserted, ChunksInserted 1, Committed],
         Inr (1, 1))"
proof -
  have f: "db_fault c10_env s = False" for s by (simp add: c10_env_def)
  have sha: "sha256 c10_env t = t" for t by (simp add: c10_env_def)
  have emb: "generate_embeddings_batch c10_env [''World.''] = [[1, 0]]"
    by (simp add: generate_embeddings_batch_def encode_batch_def c10_env_def batches.simps)
  have ins: "insert_document c10_env empty_db (Some ''scan.pdf'') ''World.'' 1 [] =
     (\<lparr>policy_documents = [\<lparr>pd_id = 1, pd_document_name = ''scan.pdf'',
          pd_document_hash = ''World.'', pd_upload_date = 0, pd_total_chunks = 1,
          pd_metadata = []\<rparr>], policy_chunks = [], documents_id_seq = 2, chunks_id_seq = 1\<rparr>, Inr 1)"
    by (simp add: insert_document_def f varchar_def empty_db_def Let_def) (simp add: c10_env_def)
  have recs: "chunk_records 1 [\<lparr>c_text = ''World.'', c_page_number = 2, c_chunk_index = 0,
            c_start_char = 0, c_end_char = 1500\<rparr>] [[1, 0]] =
        [(1, 0, ''World.'', 2, (0, 1500), [1, 0])]"
    by (simp add: chunk_records_def)
  have chk: "insert_chunks c10_env
       \<lparr>policy_documents = [\<lparr>pd_id = 1, pd_document_name = ''scan.pdf'',
          pd_document_hash = ''World.'', pd_upload_date = 0, pd_total_chunks = 1,
          pd_metadata = []\<rparr>], policy_chunks = [], documents_id_seq = 2, chunks_id_seq = 1\<rparr>
       [(1, 0, ''World.'', 2, (0, 1500), [1, 0])] = (c10_db, Inr ())"
    by (simp add: insert_chunks_def f enumerate_eq_zip chunk_row_def chunk_key_def
          Let_def c10_db_def)
  have e: "policy_documents empty_db = []" by (simp add: empty_db_def)
  have store: "store_document c10_env empty_db (Some ''scan.pdf'') None
       [\<lparr>c_text = ''World.'', c_page_number = 2, c_chunk_index = 0,
            c_start_char = 0, c_end_char = 1500\<rparr>] ''World.'' =
     (c10_db, [Hashed, LookedUp, Embedded 1, DocumentInserted, ChunksInserted 1, Committed],
      Inr (1, 1))"
    unfolding store_document_def
    by (simp add: sha f e emb ins recs chk Let_def)
  show ?thesis
    by (simp add: add_policy_document_def f c10_prepare store)
qed

text \<open>
  C10, as amended. After a successful ingestion the chunk rows added are those of the
  chunks, with their texts and page numbers; none is added when the hash was found. On
  the PDF path every chunk carries the number, counted from 1, of the page of the PDF it
  was cut from. On the text path every chunk carries the page number 1, the default of
  \<open>chunk_text\<close>: no row is stored with page number 0.
\<close>

theorem stored_page_numbers:
  assumes a: "add_policy_document env p db dt dn pb md = Some (db', evs, Inr (i, n))"
  shows "\<exists>chunks_data dtext rows.
      prepare_chunks env p dt pb = Some ([Chunked], Inr (chunks_data, dtext))
    \<and> policy_chunks db' = policy_chunks db @ rows
    \<and> (case find (\<lambda>d. pd_document_hash d = sha256 env dtext) (policy_documents db) of
         Some d \<Rightarrow> rows = []
       | None \<Rightarrow> map pc_chunk_text rows = map c_text chunks_data
                \<and> map pc_page_number rows = map c_page_number chunks_data)
    \<and> (if truthy pb \<and> \<not> truthy dt
       then \<exists>pages. pdf_reader env (the pb) = Some pages \<and>
              (\<forall>c \<in> set chunks_data.
                  1 \<le> c_page_number c \<and> c_page_number c \<le> int (length pages)
                \<and> strip (pages ! (nat (c_page_number c) - 1)) \<noteq> []
                \<and> (\<exists>chunks. chunk_text p (clean_text env (pages ! (nat (c_page_number c) - 1)))
                               (c_page_number c) = Some chunks \<and> c \<in> set chunks))
       else chunk_text p (the dt) 1 = Some chunks_data
            \<and> (\<forall>c \<in> set chunks_data. c_page_number c = 1))"
  using a
proof (cases rule: add_policy_document_cases)
  case (stored chunks_data dtext evs0 evs1)
  note ch = prepare_chunks_chunked[OF stored(2)]
  have prep: "prepare_chunks env p dt pb = Some ([Chunked], Inr (chunks_data, dtext))"
    using stored(2) ch by simp
  note pages = prepare_chunks_pages[OF stored(2)]
  have "\<exists>rows. policy_chunks db' = policy_chunks db @ rows
    \<and> (case find (\<lambda>d. pd_document_hash d = sha256 env dtext) (policy_documents db) of
         Some d \<Rightarrow> rows = []
       | None \<Rightarrow> map pc_chunk_text rows = map c_text chunks_data
                \<and> map pc_page_number rows = map c_page_number chunks_data)"
    using stored(3)
  proof (cases rule: store_document_cases)
    case (hit d)
    then show ?thesis by simp
  next
    case fresh
    let ?emb = "generate_embeddings_batch env (map c_text chunks_data)"
    let ?rows = "map (\<lambda>(k, r). chunk_row (chunks_id_seq db + int k) r)
               (enumerate 0 (chunk_records i chunks_data ?emb))"
    have len: "length ?emb = length chunks_data"
      by (simp add: length_generate_embeddings_batch)
    from store_document_inserted[OF stored(3) fresh]
    have rows: "policy_chunks db' = policy_chunks db @ ?rows" by blast
    note props = chunk_rows_props[OF len, of "chunks_id_seq db" i]
    from rows props(4,5) fresh show ?thesis
      by (intro exI[of _ ?rows]) (simp only: option.case simp_thms)
  qed
  with prep pages show ?thesis by blast
qed simp_all

text \<open>The PDF whose text is on its second page, and the text \<open>Hello.\<close>.\<close>

theorem stored_page_numbers_witness:
  "(\<exists>rows. policy_chunks c10_db = policy_chunks empty_db @ rows
      \<and> map pc_chunk_text rows = [''World.''] \<and> map pc_page_number rows = [2])
   \<and> (\<exists>rows. policy_chunks c1_db = policy_chunks empty_db @ rows
      \<and> map pc_chunk_text rows = [''Hello.''] \<and> map pc_page_number rows = [1])"
  using stored_page_numbers[OF c10_ingest] stored_page_numbers[OF c1_first]
  by (simp add: c10_prepare c1_prepare empty_db_def)

text \<open>C10 as stated gives the chunks of a plain text the page number 0. The chunk of the
  text \<open>Hello.\<close>, ingested into the empty database, is stored with page number 1.\<close>

theorem plain_text_is_stored_as_page_one:
  "add_policy_document c3_env default_processor empty_db (Some ''Hello.'') (Some ''note'')
     None None =
   Some (c1_db,
         [Chunked, Hashed, LookedUp, Embedded 1, DocumentInserted, ChunksInserted 1, Committed],
         Inr (1, 1))
   \<and> policy_chunks empty_db = []
   \<and> map pc_page_number (policy_chunks c1_db) = [1]"
  using c1_first by (simp add: c1_db_def empty_db_def)

section \<open>Similarity\<close>

lemma sum_list_squares_nonneg: "0 \<le> sum_list (map (\<lambda>x. x * x) (v :: real list))"
  by (induction v) auto

lemma sum_list_squares_zero:
  "sum_list (map (\<lambda>x. x * x) (v :: real list)) = 0 \<longleftrightarrow> (\<forall>x \<in> set v. x = 0)"
proof (induction v)
  case Nil
  then show ?case by simp
next
  case (Cons a v)
  have "a * a + sum_list (map (\<lambda>x. x * x) v) = 0 \<longleftrightarrow>
        a * a = 0 \<and> sum_list (map (\<lambda>x. x * x) v) = 0"
    using sum_list_squares_nonneg[of v] by (intro add_nonneg_eq_0_iff) simp_all
  with Cons show ?case by simp
qed

lemma norm_l2_nonneg: "0 \<le> norm_l2 v"
  by (simp add: norm_l2_def sum_list_squares_nonneg)

lemma norm_l2_zero: "norm_l2 v = 0 \<longleftrightarrow> (\<forall>x \<in> set v. x = 0)"
  by (simp add: norm_l2_def sum_list_squares_zero)

lemma norm_l2_pos: "0 < norm_l2 v \<longleftrightarrow> (\<exists>x \<in> set v. x \<noteq> 0)"
  using norm_l2_nonneg[of v] norm_l2_zero[of v] by (auto simp: less_le)

lemma sum_list_nth: "sum_list (map f xs) = (\<Sum>i<length xs. f (xs ! i))"
  by (simp add: sum_list_sum_nth atLeast0LessThan)

lemma dot_sum:
  "length u = length v \<Longrightarrow> dot u v = Some (\<Sum>i<length u. u ! i * v ! i)"
proof -
  assume l: "length u = length v"
  have "sum_list (map (\<lambda>(x, y). x * y) (zip u v)) = (\<Sum>i<length (zip u v). (\<lambda>(x, y). x * y) (zip u v ! i))"
    by (rule sum_list_nth)
  also have "\<dots> = (\<Sum>i<length u. u ! i * v ! i)" using l by simp
  finally show ?thesis using l by (simp add: dot_def)
qed

lemma norm_l2_sum: "norm_l2 v = sqrt (\<Sum>i<length v. (v ! i)\<^sup>2)"
  by (simp add: norm_l2_def sum_list_nth power2_eq_square)

lemma cauchy_schwarz_lists:
  fixes u v :: "real list"
  assumes "length u = length v"
  shows "(sum_list (map (\<lambda>(x, y). x * y) (zip u v)))\<^sup>2 \<le>
         sum_list (map (\<lambda>x. x * x) u) * sum_list (map (\<lambda>x. x * x) v)"
  using assms
proof (induction u v rule: list_induct2)
  case Nil
  then show ?case by simp
next
  case (Cons a u b v)
  let ?S = "sum_list (map (\<lambda>(x, y). x * y) (zip u v))"
  let ?A = "sum_list (map (\<lambda>x. x * x) u)"
  let ?B = "sum_list (map (\<lambda>x. x * x) v)"
  have A: "0 \<le> ?A" and B: "0 \<le> ?B" by (rule sum_list_squares_nonneg)+
  have "\<bar>?S\<bar> \<le> sqrt (?A * ?B)"
    using Cons.IH by (metis real_sqrt_abs real_sqrt_le_mono)
  then have S: "\<bar>?S\<bar> \<le> sqrt ?A * sqrt ?B" by (simp add: real_sqrt_mult)
  have "0 \<le> (\<bar>a\<bar> * sqrt ?B - \<bar>b\<bar> * sqrt ?A)\<^sup>2" by simp
  then have "2 * (\<bar>a\<bar> * sqrt ?B) * (\<bar>b\<bar> * sqrt ?A) \<le> a * a * ?B + b * b * ?A"
    using A B by (simp add: power2_diff power_mult_distrib power2_eq_square[symmetric])
  moreover have "2 * a * b * ?S \<le> 2 * (\<bar>a\<bar> * \<bar>b\<bar>) * (sqrt ?A * sqrt ?B)"
  proof -
    have "a * b * ?S \<le> \<bar>a * b * ?S\<bar>" by simp
    also have "\<dots> = (\<bar>a\<bar> * \<bar>b\<bar>) * \<bar>?S\<bar>" by (simp add: abs_mult)
    also have "\<dots> \<le> (\<bar>a\<bar> * \<bar>b\<bar>) * (sqrt ?A * sqrt ?B)"
      using S by (intro mult_left_mono) simp_all
    finally show ?thesis by simp
  qed
  ultimately have "2 * a * b * ?S \<le> a * a * ?B + b * b * ?A"
    by (simp add: algebra_simps)
  moreover have "?S\<^sup>2 \<le> ?A * ?B" by (rule Cons.IH)
  ultimately have "(a * b + ?S)\<^sup>2 \<le> (a * a + ?A) * (b * b + ?B)"
    by (simp add: power2_sum algebra_simps power2_eq_square)
  then show ?case by simp
qed

lemma similarity_bounded:
  assumes "similarity q s = Some x"
  shows "- 1 \<le> x \<and> x \<le> 1"
proof (cases "0 < norm_l2 s \<and> 0 < norm_l2 q")
  case False
  with assms show ?thesis by (auto simp: similarity_def Let_def)
next
  case True
  with assms obtain d where d: "dot q s = Some d" "x = d / (norm_l2 q * norm_l2 s)"
    by (auto simp: similarity_def Let_def)
  then have l: "length q = length s" and dd: "d = sum_list (map (\<lambda>(x, y). x * y) (zip q s))"
    by (auto simp: dot_def split: if_splits)
  from cauchy_schwarz_lists[OF l] have "d\<^sup>2 \<le> (norm_l2 q)\<^sup>2 * (norm_l2 s)\<^sup>2"
    by (simp add: dd norm_l2_def sum_list_squares_nonneg)
  then have "d\<^sup>2 \<le> (norm_l2 q * norm_l2 s)\<^sup>2" by (simp add: power_mult_distrib)
  then have "\<bar>d\<bar> \<le> norm_l2 q * norm_l2 s"
    using True by (metis abs_le_square_iff abs_of_nonneg mult_nonneg_nonneg norm_l2_nonneg)
  then have "\<bar>x\<bar> \<le> 1" using True by (simp add: d(2) divide_le_eq)
  then show ?thesis by auto
qed


section \<open>Search\<close>

lemma py_prefix_pos: "0 \<le> k \<Longrightarrow> py_prefix xs k = take (nat k) xs"
  by (simp add: py_prefix_def py_index_def min_def)

lemma py_prefix_neg: "k < 0 \<Longrightarrow> py_prefix xs k = take (length xs - nat (- k)) xs"
proof -
  assume "k < 0"
  then have "nat (max 0 (k + int (length xs))) = length xs - nat (- k)" by linarith
  with \<open>k < 0\<close> show ?thesis by (simp add: py_prefix_def py_index_def)
qed

lemma score_row_some:
  assumes "length (pc_embedding pc) = length q"
  shows "\<exists>x. similarity q (pc_embedding pc) = Some x \<and>
     score_row q (pc, pd) =
       Some \<lparr>r_chunk_id = pc_id pc, r_document_id = pc_document_id pc,
             r_document_name = pd_document_name pd, r_chunk_index = pc_chunk_index pc,
             r_chunk_text = pc_chunk_text pc, r_page_number = pc_page_number pc,
             r_chunk_metadata = pc_chunk_metadata pc, r_similarity_score = x\<rparr>"
  using assms by (auto simp: score_row_def similarity_def dot_def Let_def)

lemma those_nth:
  "those xs = Some ys \<Longrightarrow> j < length xs \<Longrightarrow> xs ! j = Some (ys ! j)"
proof (induction xs arbitrary: ys j)
  case Nil
  then show ?case by simp
next
  case (Cons x xs)
  then show ?case by (cases j) (auto split: option.splits)
qed

text \<open>With a working connection and stored embeddings of the dimension of the query
  embedding, the search scores every candidate, sorts and cuts.\<close>

lemma search_scored:
  assumes up: "\<not> db_fault env Connect" "\<not> db_fault env SelectChunks"
    and dims: "\<forall>(pc, pd) \<in> set (select_chunks db document_id min_page).
        length (pc_embedding pc) = length (generate_embedding env query)"
  shows "\<exists>scored.
      those (map (score_row (generate_embedding env query))
               (select_chunks db document_id min_page)) = Some scored
    \<and> length scored = length (select_chunks db document_id min_page)
    \<and> (\<forall>top_k. search_similar_chunks env db query top_k document_id min_page =
          Inr (py_prefix (sort_by_score scored) top_k))"
proof -
  let ?q = "generate_embedding env query"
  let ?cands = "select_chunks db document_id min_page"
  have "\<forall>row \<in> set ?cands. score_row ?q row \<noteq> None"
  proof
    fix row assume r: "row \<in> set ?cands"
    obtain pc pd where row: "row = (pc, pd)" by (cases row)
    with r dims have "length (pc_embedding pc) = length ?q" by auto
    from score_row_some[OF this, of pd] show "score_row ?q row \<noteq> None" by (auto simp: row)
  qed
  then have th: "those (map (score_row ?q) ?cands) = Some (map (the \<circ> score_row ?q) ?cands)"
    by (rule those_map_all)
  let ?scored = "map (the \<circ> score_row ?q) ?cands"
  have "search_similar_chunks env db query top_k document_id min_page =
          Inr (py_prefix (sort_by_score ?scored) top_k)" for top_k
  proof (cases "?cands = []")
    case True
    then show ?thesis
      using up by (simp add: search_similar_chunks_def py_prefix_def sort_by_score_def)
  next
    case False
    then show ?thesis
      using up th by (simp add: search_similar_chunks_def Let_def)
  qed
  with th show ?thesis by (intro exI[of _ ?scored]) simp
qed

lemma sort_by_score_ranked:
  "mset (sort_by_score xs) = mset xs"
  "sorted_wrt (\<lambda>a b. r_similarity_score b \<le> r_similarity_score a) (sort_by_score xs)"
  "filter (\<lambda>r. r_similarity_score r = v) (sort_by_score xs) =
     filter (\<lambda>r. r_similarity_score r = v) xs"
proof -
  show "mset (sort_by_score xs) = mset xs" by (simp add: sort_by_score_def)
  have "sorted (map (\<lambda>r. - r_similarity_score r) (sort_by_score xs))"
    unfolding sort_by_score_def by (rule sorted_sort_key)
  then show "sorted_wrt (\<lambda>a b. r_similarity_score b \<le> r_similarity_score a) (sort_by_score xs)"
    by (simp add: sorted_map)
  have "filter (\<lambda>r. - r_similarity_score r = - v) (sort_by_score xs) =
     filter (\<lambda>r. - r_similarity_score r = - v) xs"
    unfolding sort_by_score_def by (rule sort_key_stable)
  then show "filter (\<lambda>r. r_similarity_score r = v) (sort_by_score xs) =
     filter (\<lambda>r. r_similarity_score r = v) xs" by simp
qed

lemma length_sort_by_score: "length (sort_by_score xs) = length xs"
  by (simp add: sort_by_score_def)


section \<open>A store of four chunks\<close>

lemma c6_candidates:
  "select_chunks c6_db None 0 =
     [(\<lparr>pc_id = 1, pc_document_id = 1, pc_chunk_index = 0, pc_chunk_text = ''a'', pc_page_number = 1, pc_chunk_metadata = (0, 1500), pc_embedding = [0, 1]\<rparr>, \<lparr>pd_id = 1, pd_document_name = ''policy'', pd_document_hash = ''h'', pd_upload_date = 0, pd_total_chunks = 4, pd_metadata = []\<rparr>), (\<lparr>pc_id = 2, pc_document_id = 1, pc_chunk_index = 1, pc_chunk_text = ''b'', pc_page_number = 1, pc_chunk_metadata = (1200, 2700), pc_embedding = [1, 0]\<rparr>, \<lparr>pd_id = 1, pd_document_name = ''policy'', pd_document_hash = ''h'', pd_upload_date = 0, pd_total_chunks = 4, pd_metadata = []\<rparr>), (\<lparr>pc_id = 3, pc_document_id = 1, pc_chunk_index = 2, pc_chunk_text = ''c'', pc_page_number = 2, pc_chunk_metadata = (2400, 3900), pc_embedding = [0, 0]\<rparr>, \<lparr>pd_id = 1, pd_document_name = ''policy'', pd_document_hash = ''h'', pd_upload_date = 0, pd_total_chunks = 4, pd_metadata = []\<rparr>), (\<lparr>pc_id = 4, pc_document_id = 1, pc_chunk_index = 3, pc_chunk_text = ''d'', pc_page_number = 2, pc_chunk_metadata = (3600, 5100), pc_embedding = [1, 0]\<rparr>, \<lparr>pd_id = 1, pd_document_name = ''policy'', pd_document_hash = ''h'', pd_upload_date = 0, pd_total_chunks = 4, pd_metadata = []\<rparr>)]"
  by (simp add: select_chunks_def c6_db_def List.map_filter_simps)

lemma c6_similarities:
  "similarity [1, 0] [0, 1] = Some 0"
  "similarity [1, 0] [1, 0] = Some 1"
  "similarity [1, 0] [0, 0] = Some 0"
  by (simp_all add: similarity_def norm_l2_def dot_def)

lemma c6_search:
  "search_similar_chunks c3_env c6_db query top_k None 0 =
     Inr (py_prefix [\<lparr>r_chunk_id = 2, r_document_id = 1, r_document_name = ''policy'', r_chunk_index = 1, r_chunk_text = ''b'', r_page_number = 1, r_chunk_metadata = (1200, 2700), r_similarity_score = 1\<rparr>, \<lparr>r_chunk_id = 4, r_document_id = 1, r_document_name = ''policy'', r_chunk_index = 3, r_chunk_text = ''d'', r_page_number = 2, r_chunk_metadata = (3600, 5100), r_similarity_score = 1\<rparr>, \<lparr>r_chunk_id = 1, r_document_id = 1, r_document_name = ''policy'', r_chunk_index = 0, r_chunk_text = ''a'', r_page_number = 1, r_chunk_metadata = (0, 1500), r_similarity_score = 0\<rparr>, \<lparr>r_chunk_id = 3, r_document_id = 1, r_document_name = ''policy'', r_chunk_index = 2, r_chunk_text = ''c'', r_page_number = 2, r_chunk_metadata = (2400, 3900), r_similarity_score = 0\<rparr>] top_k)"
proof -
  have f: "db_fault c3_env st = False" for st by (simp add: c3_env_def)
  have q: "generate_embedding c3_env query = [1, 0]"
    by (simp add: generate_embedding_def c3_env_def)
  have sc: "those (map (score_row [1, 0]) (select_chunks c6_db None 0)) =
      Some [\<lparr>r_chunk_id = 1, r_document_id = 1, r_document_name = ''policy'', r_chunk_index = 0, r_chunk_text = ''a'', r_page_number = 1, r_chunk_metadata = (0, 1500), r_similarity_score = 0\<rparr>, \<lparr>r_chunk_id = 2, r_document_id = 1, r_document_name = ''policy'', r_chunk_index = 1, r_chunk_text = ''b'', r_page_number = 1, r_chunk_metadata = (1200, 2700), r_similarity_score = 1\<rparr>, \<lparr>r_chunk_id = 3, r_document_id = 1, r_document_name = ''policy'', r_chunk_index = 2, r_chunk_text = ''c'', r_page_number = 2, r_chunk_metadata = (2400, 3900), r_similarity_score = 0\<rparr>, \<lparr>r_chunk_id = 4, r_document_id = 1, r_document_name = ''policy'', r_chunk_index = 3, r_chunk_text = ''d'', r_page_number = 2, r_chunk_metadata = (3600, 5100), r_similarity_score = 1\<rparr>]"
    by (simp add: c6_candidates score_row_def c6_similarities)
  have srt: "sort_by_score [\<lparr>r_chunk_id = 1, r_document_id = 1, r_document_name = ''policy'', r_chunk_index = 0, r_chunk_text = ''a'', r_page_number = 1, r_chunk_metadata = (0, 1500), r_similarity_score = 0\<rparr>, \<lparr>r_chunk_id = 2, r_document_id = 1, r_document_name = ''policy'', r_chunk_index = 1, r_chunk_text = ''b'', r_page_number = 1, r_chunk_metadata = (1200, 2700), r_similarity_score = 1\<rparr>, \<lparr>r_chunk_id = 3, r_document_id = 1, r_document_name = ''policy'', r_chunk_index = 2, r_chunk_text = ''c'', r_page_number = 2, r_chunk_metadata = (2400, 3900), r_similarity_score = 0\<rparr>, \<lparr>r_chunk_id = 4, r_document_id = 1, r_document_name = ''policy'', r_chunk_index = 3, r_chunk_text = ''d'', r_page_number = 2, r_chunk_metadata = (3600, 5100), r_similarity_score = 1\<rparr>] = [\<lparr>r_chunk_id = 2, r_document_id = 1, r_document_name = ''policy'', r_chunk_index = 1, r_chunk_text = ''b'', r_page_number = 1, r_chunk_metadata = (1200, 2700), r_similarity_score = 1\<rparr>, \<lparr>r_chunk_id = 4, r_document_id = 1, r_document_name = ''policy'', r_chunk_index = 3, r_chunk_text = ''d'', r_page_number = 2, r_chunk_metadata = (3600, 5100), r_similarity_score = 1\<rparr>, \<lparr>r_chunk_id = 1, r_document_id = 1, r_document_name = ''policy'', r_chunk_index = 0, r_chunk_text = ''a'', r_page_number = 1, r_chunk_metadata = (0, 1500), r_similarity_score = 0\<rparr>, \<lparr>r_chunk_id = 3, r_document_id = 1, r_document_name = ''policy'', r_chunk_index = 2, r_chunk_text = ''c'', r_page_number = 2, r_chunk_metadata = (2400, 3900), r_similarity_score = 0\<rparr>]"
    by (simp add: sort_by_score_def)
  have ne: "select_chunks c6_db None 0 \<noteq> []" by (simp add: c6_candidates)
  show ?thesis
    by (simp add: search_similar_chunks_def f q sc srt ne Let_def)
qed


lemma those_origin:
  "those (map f xs) = Some ys \<Longrightarrow> y \<in> set ys \<Longrightarrow> \<exists>x \<in> set xs. f x = Some y"
proof -
  assume a: "those (map f xs) = Some ys" and y: "y \<in> set ys"
  from those_map_Some[OF a] have "Some y \<in> set (map f xs)"
    using y by (metis image_eqI list.set_map)
  then show ?thesis by auto
qed

lemma search_result_origin:
  assumes "search_similar_chunks env db query top_k document_id min_page = Inr rs"
    and "r \<in> set rs"
  shows "\<exists>(pc, pd) \<in> set (select_chunks db document_id min_page).
           r_chunk_id r = pc_id pc
         \<and> similarity (generate_embedding env query) (pc_embedding pc) =
             Some (r_similarity_score r)"
proof -
  let ?q = "generate_embedding env query"
  let ?cands = "select_chunks db document_id min_page"
  from assms obtain sims where sims: "those (map (score_row ?q) ?cands) = Some sims"
    and rs: "rs = py_prefix (sort_by_score sims) top_k"
    by (auto simp: search_similar_chunks_def Let_def split: if_splits option.splits)
  from assms(2) rs have "r \<in> set (sort_by_score sims)"
    by (auto simp: py_prefix_def dest: in_set_takeD)
  then have "r \<in> set sims" by (simp add: sort_by_score_def)
  from those_origin[OF sims this] obtain row where row: "row \<in> set ?cands"
    "score_row ?q row = Some r" by blast
  obtain pc pd where pcpd: "row = (pc, pd)" by (cases row)
  from row(2) have "r_chunk_id r = pc_id pc
         \<and> similarity ?q (pc_embedding pc) = Some (r_similarity_score r)"
    by (auto simp: pcpd score_row_def)
  with row(1) pcpd show ?thesis by auto
qed

text \<open>
  C5. Over the reals (rounding, overflow and the special values of \<open>float32\<close> are not
  modelled): the score of a stored embedding \<open>s\<close> against a query embedding \<open>q\<close> is the
  dot product divided by the product of the two Euclidean norms when both norms are
  positive, and 0 otherwise; the division is never by zero; a norm is positive exactly
  when the vector has a component that is not 0, so a stored embedding of zeros scores 0
  against every query; every score lies between -1 and 1; and the score of every result
  of a search is this score of its chunk. (With both norms positive and vectors of
  different lengths \<open>np.dot\<close> raises, and there is no score.)
\<close>

theorem similarity_is_cosine:
  "similarity q s =
     (if 0 < norm_l2 q \<and> 0 < norm_l2 s
      then (if length q = length s
            then Some ((\<Sum>i<length q. q ! i * s ! i) /
                       (sqrt (\<Sum>i<length q. (q ! i)\<^sup>2) * sqrt (\<Sum>i<length s. (s ! i)\<^sup>2)))
            else None)
      else Some 0)
   \<and> norm_l2 s = sqrt (\<Sum>i<length s. (s ! i)\<^sup>2)
   \<and> (0 < norm_l2 q \<and> 0 < norm_l2 s \<longrightarrow> norm_l2 q * norm_l2 s \<noteq> 0)
   \<and> (0 < norm_l2 s \<longleftrightarrow> (\<exists>x \<in> set s. x \<noteq> 0))
   \<and> ((\<forall>x \<in> set s. x = 0) \<longrightarrow> similarity q s = Some 0)
   \<and> similarity q (zeros n) = Some 0
   \<and> (\<forall>x. similarity q s = Some x \<longrightarrow> - 1 \<le> x \<and> x \<le> 1)
   \<and> (\<forall>rs. search_similar_chunks env db query top_k document_id min_page = Inr rs \<longrightarrow>
         (\<forall>r \<in> set rs. \<exists>(pc, pd) \<in> set (select_chunks db document_id min_page).
              r_chunk_id r = pc_id pc
            \<and> similarity (generate_embedding env query) (pc_embedding pc) =
                Some (r_similarity_score r)))"
proof -
  have 1: "similarity q s =
     (if 0 < norm_l2 q \<and> 0 < norm_l2 s
      then (if length q = length s
            then Some ((\<Sum>i<length q. q ! i * s ! i) /
                       (sqrt (\<Sum>i<length q. (q ! i)\<^sup>2) * sqrt (\<Sum>i<length s. (s ! i)\<^sup>2)))
            else None)
      else Some 0)"
  proof (cases "0 < norm_l2 q \<and> 0 < norm_l2 s")
    case F: False
    then have "similarity q s = Some 0" by (auto simp: similarity_def Let_def)
    then show ?thesis by (subst if_not_P[OF F])
  next
    case T: True
    show ?thesis
    proof (cases "length q = length s")
      case len: True
      have E: "similarity q s = Some ((\<Sum>i<length q. q ! i * s ! i) / (norm_l2 q * norm_l2 s))"
        using T dot_sum[OF len] by (simp add: similarity_def Let_def)
      have N: "norm_l2 q * norm_l2 s =
          sqrt (\<Sum>i<length q. (q ! i)\<^sup>2) * sqrt (\<Sum>i<length s. (s ! i)\<^sup>2)"
        by (simp only: norm_l2_sum)
      show ?thesis by (subst if_P[OF T], subst if_P[OF len], simp only: E N)
    next
      case nl: False
      have E: "similarity q s = None"
        using T nl by (simp add: similarity_def Let_def dot_def)
      show ?thesis by (subst if_P[OF T], subst if_not_P[OF nl], rule E)
    qed
  qed
  have 2: "norm_l2 s = sqrt (\<Sum>i<length s. (s ! i)\<^sup>2)" by (rule norm_l2_sum)
  have 3: "0 < norm_l2 q \<and> 0 < norm_l2 s \<longrightarrow> norm_l2 q * norm_l2 s \<noteq> 0" by simp
  have 4: "0 < norm_l2 s \<longleftrightarrow> (\<exists>x \<in> set s. x \<noteq> 0)" by (rule norm_l2_pos)
  have 5: "(\<forall>x \<in> set s. x = 0) \<longrightarrow> similarity q s = Some 0"
  proof
    assume "\<forall>x \<in> set s. x = 0"
    then have "norm_l2 s = 0" by (simp add: norm_l2_zero)
    then show "similarity q s = Some 0" by (simp add: similarity_def Let_def)
  qed
  have "norm_l2 (zeros n) = 0" by (simp add: norm_l2_zero zeros_def)
  then have 6: "similarity q (zeros n) = Some 0" by (simp add: similarity_def Let_def)
  have 7: "\<forall>x. similarity q s = Some x \<longrightarrow> - 1 \<le> x \<and> x \<le> 1"
    using similarity_bounded by blast
  have 8: "\<forall>rs. search_similar_chunks env db query top_k document_id min_page = Inr rs \<longrightarrow>
         (\<forall>r \<in> set rs. \<exists>(pc, pd) \<in> set (select_chunks db document_id min_page).
              r_chunk_id r = pc_id pc
            \<and> similarity (generate_embedding env query) (pc_embedding pc) =
                Some (r_similarity_score r))"
    using search_result_origin by blast
  from 1 2 3 4 5 6 7 8 show ?thesis by blast
qed

text \<open>Vectors of norm 0 and of norm 1.\<close>

theorem similarity_is_cosine_witness:
  "similarity [1, 0] [0, 0] = Some 0
   \<and> similarity [0, 0] [1, 0] = Some 0
   \<and> similarity [1, 0] [1, 0] = Some 1
   \<and> similarity [1, 0] [- 1, 0] = Some (- 1)
   \<and> similarity [1, 0] [0, 1] = Some 0"
  using similarity_is_cosine[of "[1, 0]" "[0, 0]" 2 c3_env c6_db "''q''" 5 None 0]
    similarity_is_cosine[of "[0, 0]" "[1, 0]" 2 c3_env c6_db "''q''" 5 None 0]
    similarity_is_cosine[of "[1, 0]" "[1, 0]" 2 c3_env c6_db "''q''" 5 None 0]
    similarity_is_cosine[of "[1, 0]" "[- 1, 0]" 2 c3_env c6_db "''q''" 5 None 0]
    similarity_is_cosine[of "[1, 0]" "[0, 1]" 2 c3_env c6_db "''q''" 5 None 0]
  by (simp add: norm_l2_def lessThan_Suc eval_nat_numeral)


text \<open>
  C6. With a working connection, a \<open>top_k\<close> of at least 1 and stored embeddings of the
  dimension of the query embedding, the search returns the first \<open>top_k\<close> of the ranked
  list: the scored candidates (one per candidate, with its id and its score), reordered
  by score in descending order, candidates of equal score in the order of retrieval.
  The result has \<open>min top_k n\<close> entries for \<open>n\<close> candidates, is the whole ranked list
  when \<open>n \<le> top_k\<close>, and is the empty list, not an error, when there is no candidate.
\<close>

theorem search_returns_ranked_prefix:
  assumes up: "\<not> db_fault env Connect" "\<not> db_fault env SelectChunks"
    and k: "1 \<le> top_k"
    and dims: "\<forall>(pc, pd) \<in> set (select_chunks db document_id min_page).
        length (pc_embedding pc) = length (generate_embedding env query)"
  shows "\<exists>scored full.
      those (map (score_row (generate_embedding env query))
               (select_chunks db document_id min_page)) = Some scored
    \<and> length scored = length (select_chunks db document_id min_page)
    \<and> (\<forall>j < length scored.
          r_chunk_id (scored ! j) = pc_id (fst (select_chunks db document_id min_page ! j))
        \<and> similarity (generate_embedding env query)
              (pc_embedding (fst (select_chunks db document_id min_page ! j))) =
            Some (r_similarity_score (scored ! j)))
    \<and> mset full = mset scored
    \<and> sorted_wrt (\<lambda>a b. r_similarity_score b \<le> r_similarity_score a) full
    \<and> (\<forall>v. filter (\<lambda>r. r_similarity_score r = v) full =
             filter (\<lambda>r. r_similarity_score r = v) scored)
    \<and> search_similar_chunks env db query top_k document_id min_page = Inr (take (nat top_k) full)
    \<and> length (take (nat top_k) full) =
        min (nat top_k) (length (select_chunks db document_id min_page))
    \<and> (length (select_chunks db document_id min_page) \<le> nat top_k \<longrightarrow>
         take (nat top_k) full = full)
    \<and> (select_chunks db document_id min_page = [] \<longrightarrow>
         search_similar_chunks env db query top_k document_id min_page = Inr [])"
proof -
  let ?q = "generate_embedding env query"
  let ?cands = "select_chunks db document_id min_page"
  from search_scored[OF up dims] obtain scored where
    th: "those (map (score_row ?q) ?cands) = Some scored"
    and len: "length scored = length ?cands"
    and res: "\<And>top_k. search_similar_chunks env db query top_k document_id min_page =
          Inr (py_prefix (sort_by_score scored) top_k)" by blast
  let ?full = "sort_by_score scored"
  have each: "\<forall>j < length scored.
          r_chunk_id (scored ! j) = pc_id (fst (?cands ! j))
        \<and> similarity ?q (pc_embedding (fst (?cands ! j))) = Some (r_similarity_score (scored ! j))"
  proof (intro allI impI)
    fix j assume j: "j < length scored"
    with len have "map (score_row ?q) ?cands ! j = Some (scored ! j)"
      by (intro those_nth[OF th]) simp
    then have sr: "score_row ?q (?cands ! j) = Some (scored ! j)" using j len by simp
    obtain pc pd where pcpd: "?cands ! j = (pc, pd)" by (cases "?cands ! j")
    from sr obtain z where z: "similarity ?q (pc_embedding pc) = Some z"
      and eq: "scored ! j = \<lparr>r_chunk_id = pc_id pc, r_document_id = pc_document_id pc,
             r_document_name = pd_document_name pd, r_chunk_index = pc_chunk_index pc,
             r_chunk_text = pc_chunk_text pc, r_page_number = pc_page_number pc,
             r_chunk_metadata = pc_chunk_metadata pc, r_similarity_score = z\<rparr>"
      unfolding pcpd by (auto simp: score_row_def)
    show "r_chunk_id (scored ! j) = pc_id (fst (?cands ! j))
        \<and> similarity ?q (pc_embedding (fst (?cands ! j))) = Some (r_similarity_score (scored ! j))"
      unfolding pcpd by (simp add: eq z)
  qed
  have r: "search_similar_chunks env db query top_k document_id min_page =
      Inr (take (nat top_k) ?full)"
    using res[of top_k] k by (simp add: py_prefix_pos)
  have l: "length (take (nat top_k) ?full) = min (nat top_k) (length ?cands)"
    by (simp add: length_sort_by_score len min.commute)
  have a: "length ?cands \<le> nat top_k \<longrightarrow> take (nat top_k) ?full = ?full"
    by (simp add: length_sort_by_score len)
  have e: "?cands = [] \<longrightarrow>
      search_similar_chunks env db query top_k document_id min_page = Inr []"
    using up by (simp add: search_similar_chunks_def)
  from th len each sort_by_score_ranked(1)[of scored] sort_by_score_ranked(2)[of scored]
    sort_by_score_ranked(3)[of _ scored] r l a e
  show ?thesis by blast
qed


text \<open>Ten results asked from the store of four chunks.\<close>

theorem search_returns_ranked_prefix_witness:
  "\<exists>rs. search_similar_chunks c3_env c6_db ''fire'' 10 None 0 = Inr rs
        \<and> length rs = 4
        \<and> sorted_wrt (\<lambda>a b. r_similarity_score b \<le> r_similarity_score a) rs"
proof -
  have h: "\<not> db_fault c3_env Connect" "\<not> db_fault c3_env SelectChunks"
    by (simp_all add: c3_env_steps)
  have d: "\<forall>(pc, pd) \<in> set (select_chunks c6_db None 0).
      length (pc_embedding pc) = length (generate_embedding c3_env ''fire'')"
    by (simp add: c6_candidates generate_embedding_def c3_env_def)
  from search_returns_ranked_prefix[OF h _ d, of 10] obtain full where
    "sorted_wrt (\<lambda>a b. r_similarity_score b \<le> r_similarity_score a) full"
    "search_similar_chunks c3_env c6_db ''fire'' 10 None 0 = Inr (take (nat 10) full)"
    "length (take (nat 10) full) = min (nat 10) (length (select_chunks c6_db None 0))"
    "length (select_chunks c6_db None 0) \<le> nat 10 \<longrightarrow> take (nat 10) full = full"
    by auto
  then show ?thesis by (intro exI[of _ full]) (simp add: c6_candidates)
qed

text \<open>
  C8, as amended. The search validates neither \<open>top_k\<close> nor the query text. The only
  error it raises is a failed connection. With a working connection and stored
  embeddings of the dimension of the query embedding it answers every \<open>top_k\<close> and
  every query text, the empty one too, from the ranked list of all candidates: the first
  \<open>top_k\<close> entries for a positive \<open>top_k\<close>, the empty list for 0, and for a negative
  \<open>top_k\<close> the list without its last \<open>- top_k\<close> entries, as the slice
  \<open>similarities[:top_k]\<close> does.
\<close>

theorem search_validates_nothing:
  "(\<forall>e. search_similar_chunks env db query top_k document_id min_page = Inl e \<longrightarrow>
        e = ConnectionError \<and> db_fault env Connect)
   \<and> (\<not> db_fault env Connect \<and> \<not> db_fault env SelectChunks
      \<and> (\<forall>(pc, pd) \<in> set (select_chunks db document_id min_page).
            length (pc_embedding pc) = length (generate_embedding env query)) \<longrightarrow>
      (\<exists>full.
          search_similar_chunks env db query
            (int (length (select_chunks db document_id min_page))) document_id min_page = Inr full
        \<and> length full = length (select_chunks db document_id min_page)
        \<and> search_similar_chunks env db query top_k document_id min_page =
            Inr (if 0 < top_k then take (nat top_k) full
                 else if top_k = 0 then []
                 else take (length full - nat (- top_k)) full)))"
proof (intro conjI impI)
  show "\<forall>e. search_similar_chunks env db query top_k document_id min_page = Inl e \<longrightarrow>
        e = ConnectionError \<and> db_fault env Connect"
    by (auto simp: search_similar_chunks_def Let_def split: if_splits option.splits)
next
  let ?cands = "select_chunks db document_id min_page"
  assume a: "\<not> db_fault env Connect \<and> \<not> db_fault env SelectChunks
      \<and> (\<forall>(pc, pd) \<in> set ?cands.
            length (pc_embedding pc) = length (generate_embedding env query))"
  then have up: "\<not> db_fault env Connect" "\<not> db_fault env SelectChunks"
    and dims: "\<forall>(pc, pd) \<in> set ?cands.
            length (pc_embedding pc) = length (generate_embedding env query)"
    by blast+
  from search_scored[OF up dims] obtain scored where
    len: "length scored = length ?cands"
    and res: "\<And>top_k. search_similar_chunks env db query top_k document_id min_page =
          Inr (py_prefix (sort_by_score scored) top_k)" by blast
  let ?full = "sort_by_score scored"
  have l: "length ?full = length ?cands" by (simp add: length_sort_by_score len)
  have 1: "search_similar_chunks env db query (int (length ?cands)) document_id min_page =
      Inr ?full"
    using res[of "int (length ?cands)"] l by (simp add: py_prefix_pos)
  have 2: "search_similar_chunks env db query top_k document_id min_page =
            Inr (if 0 < top_k then take (nat top_k) ?full
                 else if top_k = 0 then []
                 else take (length ?full - nat (- top_k)) ?full)"
  proof (cases "0 \<le> top_k")
    case True
    then show ?thesis using res[of top_k] by (auto simp: py_prefix_pos)
  next
    case False
    then show ?thesis using res[of top_k] by (simp add: py_prefix_neg)
  qed
  from 1 l 2 show "\<exists>full.
          search_similar_chunks env db query (int (length ?cands)) document_id min_page = Inr full
        \<and> length full = length ?cands
        \<and> search_similar_chunks env db query top_k document_id min_page =
            Inr (if 0 < top_k then take (nat top_k) full
                 else if top_k = 0 then []
                 else take (length full - nat (- top_k)) full)"
    by blast
qed

text \<open>The empty query with \<open>top_k = -1\<close> on the store of four chunks.\<close>

theorem search_validates_nothing_witness:
  "\<exists>full. search_similar_chunks c3_env c6_db [] 4 None 0 = Inr full
        \<and> length full = 4
        \<and> search_similar_chunks c3_env c6_db [] (- 1) None 0 = Inr (take 3 full)"
proof -
  have d: "\<forall>(pc, pd) \<in> set (select_chunks c6_db None 0).
      length (pc_embedding pc) = length (generate_embedding c3_env [])"
    by (simp add: c6_candidates generate_embedding_def c3_env_def)
  then have up: "\<not> db_fault c3_env Connect \<and> \<not> db_fault c3_env SelectChunks
      \<and> (\<forall>(pc, pd) \<in> set (select_chunks c6_db None 0).
            length (pc_embedding pc) = length (generate_embedding c3_env []))"
    by (simp add: c3_env_steps)
  from search_validates_nothing[of c3_env c6_db "[]" "- 1" None 0] up
  have "\<exists>full.
          search_similar_chunks c3_env c6_db []
            (int (length (select_chunks c6_db None 0))) None 0 = Inr full
        \<and> length full = length (select_chunks c6_db None 0)
        \<and> search_similar_chunks c3_env c6_db [] (- 1) None 0 =
            Inr (if 0 < (- 1 :: int) then take (nat (- 1)) full
                 else if (- 1 :: int) = 0 then []
                 else take (length full - nat (- (- 1))) full)"
    by blast
  then obtain full where
    "search_similar_chunks c3_env c6_db [] 4 None 0 = Inr full" "length full = 4"
    "search_similar_chunks c3_env c6_db [] (- 1) None 0 = Inr (take (length full - 1) full)"
    by (auto simp: c6_candidates)
  then show ?thesis by (intro exI[of _ full]) simp
qed

text \<open>C8 as stated has a malformed query rejected with a validation error. The empty
  query is answered like any other, \<open>top_k = -1\<close> gives the ranked list without its last
  entry, and \<open>top_k = 0\<close> gives the empty list.\<close>

theorem search_accepts_malformed_query:
  "map_sum id (map r_chunk_id) (search_similar_chunks c3_env c6_db [] 5 None 0) =
     Inr [2, 4, 1, 3]
   \<and> map_sum id (map r_chunk_id) (search_similar_chunks c3_env c6_db [] (- 1) None 0) =
     Inr [2, 4, 1]
   \<and> search_similar_chunks c3_env c6_db ''fire'' 0 None 0 = Inr []"
  by (simp add: c6_search py_prefix_def py_index_def)

end
